theory Spec2Isabelle
  imports Main "HOL-Library.Word"
begin

unbundle bit_operations_syntax

section \<open>Bytes, fixed-size hashes and integer encodings\<close>

text \<open>
  Go's \<^verbatim>\<open>byte\<close> and \<^verbatim>\<open>uint64\<close> are machine words. go-ethereum's
  \<^verbatim>\<open>common.Hash\<close> is a \<^verbatim>\<open>[32]byte\<close> array and \<^verbatim>\<open>common.Address\<close> a
  \<^verbatim>\<open>[20]byte\<close> array; both are embedded as the word whose big-endian bytes are the
  array, so that the length of the array is part of the type.
\<close>

type_synonym byte = "8 word"
type_synonym uint64 = "64 word"
type_synonym Hash = "256 word"
type_synonym Address = "160 word"

text \<open>The big-endian value of a byte string, and the \<open>n\<close>-byte big-endian string of a value.\<close>

fun be_val :: "byte list \<Rightarrow> nat" where
  "be_val bs = foldl (\<lambda>a b. a * 256 + unat b) 0 bs"

fun be_bytes :: "nat \<Rightarrow> nat \<Rightarrow> byte list" where
  "be_bytes 0 v = []"
| "be_bytes (Suc n) v = be_bytes n (v div 256) @ [word_of_nat (v mod 256)]"

text \<open>The little-endian value of a byte string (least significant byte first).\<close>

fun le_val :: "byte list \<Rightarrow> nat" where
  "le_val [] = 0"
| "le_val (b # bs) = unat b + 256 * le_val bs"

text \<open>
  \<^verbatim>\<open>h.Bytes()\<close> and \<^verbatim>\<open>h[:]\<close> of a \<^verbatim>\<open>common.Hash\<close>, \<^verbatim>\<open>a.Bytes()\<close> of a
  \<^verbatim>\<open>common.Address\<close>; \<^verbatim>\<open>common.BytesToHash\<close> and \<^verbatim>\<open>common.BytesToAddress\<close>
  right-align the bytes and crop from the left what does not fit; \<^verbatim>\<open>h.Big()\<close> reads the
  32 bytes as an unsigned big-endian integer, and \<^verbatim>\<open>common.BigToHash(b)\<close> is
  \<^verbatim>\<open>BytesToHash(b.Bytes())\<close>, where \<^verbatim>\<open>b.Bytes()\<close> is the big-endian magnitude of
  \<open>b\<close>.
\<close>

definition Hash_Bytes :: "Hash \<Rightarrow> byte list" where
  "Hash_Bytes h = be_bytes 32 (unat h)"

definition Address_Bytes :: "Address \<Rightarrow> byte list" where
  "Address_Bytes a = be_bytes 20 (unat a)"

definition BytesToHash :: "byte list \<Rightarrow> Hash" where
  "BytesToHash b = word_of_nat (be_val b)"

definition BytesToAddress :: "byte list \<Rightarrow> Address" where
  "BytesToAddress b = word_of_nat (be_val b)"

definition Hash_Big :: "Hash \<Rightarrow> int" where
  "Hash_Big h = uint h"

definition BigToHash :: "int \<Rightarrow> Hash" where
  "BigToHash b = word_of_int \<bar>b\<bar>"

text \<open>
  \<^verbatim>\<open>big.Int.Uint64()\<close> of a non-negative integer: its low 64 bits (the value itself when
  it fits, which is the only case the Go documentation defines).
\<close>

definition Big_Uint64 :: "int \<Rightarrow> uint64" where
  "Big_Uint64 b = word_of_int b"

text \<open>
  \<^verbatim>\<open>binary.LittleEndian.PutUint64(b, v)\<close> on a fresh 8-byte slice:
  \<^verbatim>\<open>b[0] = byte(v); b[1] = byte(v >> 8); ...; b[7] = byte(v >> 56)\<close>.
\<close>

definition LittleEndian_PutUint64 :: "uint64 \<Rightarrow> byte list" where
  "LittleEndian_PutUint64 v =
     [ucast v, ucast (drop_bit 8 v), ucast (drop_bit 16 v), ucast (drop_bit 24 v),
      ucast (drop_bit 32 v), ucast (drop_bit 40 v), ucast (drop_bit 48 v),
      ucast (drop_bit 56 v)]"

text \<open>\<^verbatim>\<open>binary.BigEndian.Uint64(b)\<close> on an 8-byte slice.\<close>

definition BigEndian_Uint64 :: "byte list \<Rightarrow> uint64" where
  "BigEndian_Uint64 b = word_of_nat (be_val b)"

section \<open>Derived transaction id of a redeem attempt\<close>

text \<open>
  \<^verbatim>\<open>crypto.Keccak256Hash(data ...[]byte)\<close> feeds its arguments to one hasher in order,
  so it hashes their concatenation. The hash function itself is go-ethereum's and is a
  parameter \<open>keccak256\<close> of the model.
\<close>

definition Keccak256Hash :: "(byte list \<Rightarrow> Hash) \<Rightarrow> byte list list \<Rightarrow> Hash" where
  "Keccak256Hash keccak256 data = keccak256 (concat data)"

definition TxIdForRedeemAttempt :: "(byte list \<Rightarrow> Hash) \<Rightarrow> Hash \<Rightarrow> uint64 \<Rightarrow> Hash" where
  "TxIdForRedeemAttempt keccak256 ticketId trySequenceNum =
     (let asBytes = LittleEndian_PutUint64 trySequenceNum
      in Keccak256Hash keccak256 [Hash_Bytes ticketId, [0], asBytes])"

text \<open>A proof device: the \<open>n\<close>-byte little-endian string of a value.\<close>

fun le_bytes :: "nat \<Rightarrow> nat \<Rightarrow> byte list" where
  "le_bytes 0 v = []"
| "le_bytes (Suc n) v = word_of_nat (v mod 256) # le_bytes n (v div 256)"

section \<open>The retryable registry\<close>

subsection \<open>Storage\<close>

text \<open>
  Modelled from the spec: package \<^verbatim>\<open>storage\<close> (\<^verbatim>\<open>Storage\<close> and \<^verbatim>\<open>Queue\<close>) is
  code of the repository that is not among the source files. The spec gives its contract:
  \<^verbatim>\<open>open_substorage(key)\<close> is a logical sub-namespace, a slot holds a 32-byte word,
  \<^verbatim>\<open>set_u64_by_u64\<close> stores an integer as the right-aligned big-endian word,
  \<^verbatim>\<open>write_bytes\<close>, \<^verbatim>\<open>get_bytes\<close>, \<^verbatim>\<open>get_bytes_size\<close> and \<^verbatim>\<open>delete_bytes\<close> hold a
  byte string, the queue is a FIFO sequence of 32-byte words with \<^verbatim>\<open>put\<close>, \<^verbatim>\<open>get\<close>
  and \<^verbatim>\<open>is_empty\<close>, and every storage operation is total.

  The registry of \<^verbatim>\<open>RetryableState\<close> is therefore: the slots of the sub-storage rooted at
  each ticket id, the byte string of its nested sub-storage at \<^verbatim>\<open>calldataKey\<close>, and the
  queue at \<^verbatim>\<open>timeoutQueueKey\<close>. Distinct keys name disjoint sub-storages.
\<close>

record RetryableState =
  retryables :: "Hash \<Rightarrow> uint64 \<Rightarrow> Hash"
  calldataBytes :: "Hash \<Rightarrow> byte list"
  timeoutQueue :: "Hash list"

definition GetByUint64 :: "RetryableState \<Rightarrow> Hash \<Rightarrow> uint64 \<Rightarrow> Hash" where
  "GetByUint64 rs ticketId off = retryables rs ticketId off"

definition SetByUint64 :: "RetryableState \<Rightarrow> Hash \<Rightarrow> uint64 \<Rightarrow> Hash \<Rightarrow> RetryableState" where
  "SetByUint64 rs ticketId off v =
     rs\<lparr>retryables := (retryables rs)(ticketId := (retryables rs ticketId)(off := v))\<rparr>"

definition SetUint64ByUint64 :: "RetryableState \<Rightarrow> Hash \<Rightarrow> uint64 \<Rightarrow> uint64 \<Rightarrow> RetryableState" where
  "SetUint64ByUint64 rs ticketId off v = SetByUint64 rs ticketId off (ucast v)"

definition WriteBytes :: "RetryableState \<Rightarrow> Hash \<Rightarrow> byte list \<Rightarrow> RetryableState" where
  "WriteBytes rs ticketId data = rs\<lparr>calldataBytes := (calldataBytes rs)(ticketId := data)\<rparr>"

definition GetBytes :: "RetryableState \<Rightarrow> Hash \<Rightarrow> byte list" where
  "GetBytes rs ticketId = calldataBytes rs ticketId"

definition GetBytesSize :: "RetryableState \<Rightarrow> Hash \<Rightarrow> uint64" where
  "GetBytesSize rs ticketId = word_of_nat (length (calldataBytes rs ticketId))"

definition DeleteBytes :: "RetryableState \<Rightarrow> Hash \<Rightarrow> RetryableState" where
  "DeleteBytes rs ticketId = rs\<lparr>calldataBytes := (calldataBytes rs)(ticketId := [])\<rparr>"

definition Queue_IsEmpty :: "RetryableState \<Rightarrow> bool" where
  "Queue_IsEmpty rs = (timeoutQueue rs = [])"

definition Queue_Put :: "RetryableState \<Rightarrow> Hash \<Rightarrow> RetryableState" where
  "Queue_Put rs v = rs\<lparr>timeoutQueue := timeoutQueue rs @ [v]\<rparr>"

definition Queue_Get :: "RetryableState \<Rightarrow> Hash option \<times> RetryableState" where
  "Queue_Get rs =
     (case timeoutQueue rs of
        [] \<Rightarrow> (None, rs)
      | v # vs \<Rightarrow> (Some v, rs\<lparr>timeoutQueue := vs\<rparr>))"

text \<open>
  \<^verbatim>\<open>InitializeRetryableState\<close> on fresh storage: every slot is the zero word, no bytes are
  stored, the queue is empty.
\<close>

definition InitializeRetryableState :: RetryableState where
  "InitializeRetryableState =
     \<lparr>retryables = (\<lambda>ticketId off. 0), calldataBytes = (\<lambda>ticketId. []), timeoutQueue = []\<rparr>"

text \<open>
  \<^verbatim>\<open>util.IntToHash(val int64)\<close> is code of the repository that is not among the source
  files. Modelled from the spec: a slot holding an integer is the 32-byte word with the
  integer's big-endian representation right-aligned and zero-padded on the left. That
  fixes the word of every non-negative \<^verbatim>\<open>int64\<close>. The callers below pass
  \<^verbatim>\<open>int64(timeout)\<close>, which is negative for a timeout of \<open>2^63\<close> or more; what word a
  negative argument gives is not said anywhere, so it is the parameter \<open>negHash\<close>, and
  every theorem holds for every choice of it.
\<close>

definition IntToHash :: "(int \<Rightarrow> Hash) \<Rightarrow> int \<Rightarrow> Hash" where
  "IntToHash negHash val = (if 0 \<le> val then word_of_int val else negHash val)"

text \<open>Go's conversion \<^verbatim>\<open>int64(x)\<close> of a \<^verbatim>\<open>uint64\<close>: the same bits, read as signed.\<close>

definition int64 :: "uint64 \<Rightarrow> int" where
  "int64 x = sint x"

subsection \<open>Retryables\<close>

text \<open>
  A \<^verbatim>\<open>*Retryable\<close> handle: the ticket id (which determines its backing storage,
  \<^verbatim>\<open>rs.retryables.OpenSubStorage(id.Bytes())\<close>) and one cache per field, \<open>None\<close> for a
  \<^verbatim>\<open>nil\<close> pointer or slice. The field \<^verbatim>\<open>to\<close> is "potentially nil" as a value too.
  Reading a field fills its cache, so every reader returns the handle as well.
\<close>

record Retryable =
  r_id :: Hash
  r_numTries :: "uint64 option"
  r_timeout :: "uint64 option"
  r_from :: "Address option"
  r_to :: "Address option"
  r_callvalue :: "int option"
  r_beneficiary :: "Address option"
  r_calldata :: "byte list option"

text \<open>
  A run-time panic of the Go program ends it, with no result: a nil pointer dereference,
  \<^verbatim>\<open>make\<close> of a slice with a length it cannot allocate ("makeslice: len out of range"),
  an index out of range.
\<close>

datatype panic = NilPointerDereference | MakesliceLenOutOfRange | IndexOutOfRange

definition numTriesOffset :: uint64 where "numTriesOffset = 0"
definition timeoutOffset :: uint64 where "timeoutOffset = 1"
definition fromOffset :: uint64 where "fromOffset = 2"
definition toOffset :: uint64 where "toOffset = 3"
definition callvalueOffset :: uint64 where "callvalueOffset = 4"
definition beneficiaryOffset :: uint64 where "beneficiaryOffset = 5"

text \<open>
  The handle \<^verbatim>\<open>&Retryable{id: id, backingStorage: sto}\<close> that \<^verbatim>\<open>OpenRetryable\<close> builds:
  no field is cached.
\<close>

definition lazyRetryable :: "Hash \<Rightarrow> Retryable" where
  "lazyRetryable ticketId =
     \<lparr>r_id = ticketId, r_numTries = None, r_timeout = None, r_from = None,
      r_to = None, r_callvalue = None, r_beneficiary = None, r_calldata = None\<rparr>"

definition OpenRetryable :: "RetryableState \<Rightarrow> Hash \<Rightarrow> uint64 \<Rightarrow> Retryable option" where
  "OpenRetryable rs ticketId currentTimestamp =
     (if GetByUint64 rs ticketId timeoutOffset = 0 then None
      else Some (lazyRetryable ticketId))"

definition TryToReapOneRetryable :: "RetryableState \<Rightarrow> uint64 \<Rightarrow> RetryableState" where
  "TryToReapOneRetryable rs currentTimestamp =
     (if \<not> Queue_IsEmpty rs then
        (case Queue_Get rs of
           (Some ticketId, rs') \<Rightarrow>
             (case OpenRetryable rs' ticketId currentTimestamp of
                Some retryable \<Rightarrow> Queue_Put rs' ticketId
              | None \<Rightarrow> rs')
         | (None, rs') \<Rightarrow> rs')
      else rs)"

text \<open>
  \<^verbatim>\<open>CreateRetryable\<close>. \<^verbatim>\<open>to.Bytes()\<close> calls a value-receiver method through the pointer
  \<^verbatim>\<open>to\<close> and \<^verbatim>\<open>common.BigToHash(callvalue)\<close> calls \<^verbatim>\<open>callvalue.Bytes()\<close>: either
  panics on \<^verbatim>\<open>nil\<close>, after the first three slots have been written and before the id is
  queued.
\<close>

definition CreateRetryable ::
  "(int \<Rightarrow> Hash) \<Rightarrow> RetryableState \<Rightarrow> uint64 \<Rightarrow> Hash \<Rightarrow> uint64 \<Rightarrow> Address \<Rightarrow> Address option \<Rightarrow>
   int option \<Rightarrow> Address \<Rightarrow> byte list option \<Rightarrow> panic + Retryable \<times> RetryableState" where
  "CreateRetryable negHash rs currentTimestamp ticketId timeout fromAddr toAddr callvalue
       beneficiary calldata =
     (let rs0 = TryToReapOneRetryable rs currentTimestamp;
          ret = \<lparr>r_id = ticketId, r_numTries = Some 0, r_timeout = Some timeout,
                 r_from = Some fromAddr, r_to = toAddr, r_callvalue = callvalue,
                 r_beneficiary = Some beneficiary, r_calldata = calldata\<rparr>;
          rs1 = SetByUint64 rs0 ticketId numTriesOffset 0;
          rs2 = SetByUint64 rs1 ticketId timeoutOffset (IntToHash negHash (int64 timeout));
          rs3 = SetByUint64 rs2 ticketId fromOffset (BytesToHash (Address_Bytes fromAddr))
      in case toAddr of
           None \<Rightarrow> Inl NilPointerDereference
         | Some a \<Rightarrow>
             (let rs4 = SetByUint64 rs3 ticketId toOffset (BytesToHash (Address_Bytes a))
              in case callvalue of
                   None \<Rightarrow> Inl NilPointerDereference
                 | Some v \<Rightarrow>
                     (let rs5 = SetByUint64 rs4 ticketId callvalueOffset (BigToHash v);
                          rs6 = SetByUint64 rs5 ticketId beneficiaryOffset
                                  (BytesToHash (Address_Bytes beneficiary));
                          rs7 = WriteBytes rs6 ticketId
                                  (case calldata of None \<Rightarrow> [] | Some d \<Rightarrow> d);
                          rs8 = Queue_Put rs7 ticketId
                      in Inr (ret, rs8))))"

definition CalldataSize :: "RetryableState \<Rightarrow> Retryable \<Rightarrow> uint64" where
  "CalldataSize rs retryable =
     (case r_calldata retryable of
        None \<Rightarrow> GetBytesSize rs (r_id retryable)
      | Some d \<Rightarrow> word_of_nat (length d))"

definition RetryableSizeBytes :: "RetryableState \<Rightarrow> Hash \<Rightarrow> uint64 \<Rightarrow> uint64" where
  "RetryableSizeBytes rs ticketId currentTime =
     (case OpenRetryable rs ticketId currentTime of
        None \<Rightarrow> 0
      | Some retryable \<Rightarrow> 6 * 32 + CalldataSize rs retryable)"

definition DeleteRetryable :: "RetryableState \<Rightarrow> Hash \<Rightarrow> bool \<times> RetryableState" where
  "DeleteRetryable rs ticketId =
     (if GetByUint64 rs ticketId timeoutOffset = 0 then (False, rs)
      else
        (let rs1 = SetByUint64 rs ticketId numTriesOffset 0;
             rs2 = SetByUint64 rs1 ticketId timeoutOffset 0;
             rs3 = SetByUint64 rs2 ticketId fromOffset 0;
             rs4 = SetByUint64 rs3 ticketId toOffset 0;
             rs5 = SetByUint64 rs4 ticketId callvalueOffset 0;
             rs6 = SetByUint64 rs5 ticketId beneficiaryOffset 0
         in (True, DeleteBytes rs6 ticketId)))"

definition NumTries :: "RetryableState \<Rightarrow> Retryable \<Rightarrow> uint64 \<times> Retryable" where
  "NumTries rs retryable =
     (case r_numTries retryable of
        None \<Rightarrow>
          (let numTries = Big_Uint64 (Hash_Big (GetByUint64 rs (r_id retryable) numTriesOffset))
           in (numTries, retryable\<lparr>r_numTries := Some numTries\<rparr>))
      | Some n \<Rightarrow> (n, retryable))"

definition SetNumTries :: "RetryableState \<Rightarrow> Retryable \<Rightarrow> uint64 \<Rightarrow> Retryable \<times> RetryableState" where
  "SetNumTries rs retryable newNumTries =
     (retryable\<lparr>r_numTries := Some newNumTries\<rparr>,
      SetUint64ByUint64 rs (r_id retryable) numTriesOffset newNumTries)"

definition IncrementNumTries ::
  "RetryableState \<Rightarrow> Retryable \<Rightarrow> uint64 \<times> Retryable \<times> RetryableState" where
  "IncrementNumTries rs retryable =
     (case NumTries rs retryable of
        (n, retryable1) \<Rightarrow>
          (let newNumTries = n + 1
           in case SetNumTries rs retryable1 newNumTries of
                (retryable2, rs') \<Rightarrow> (newNumTries, retryable2, rs')))"

definition Beneficiary :: "RetryableState \<Rightarrow> Retryable \<Rightarrow> Address \<times> Retryable" where
  "Beneficiary rs retryable =
     (case r_beneficiary retryable of
        None \<Rightarrow>
          (let b = BytesToAddress (Hash_Bytes (GetByUint64 rs (r_id retryable) beneficiaryOffset))
           in (b, retryable\<lparr>r_beneficiary := Some b\<rparr>))
      | Some b \<Rightarrow> (b, retryable))"

definition Timeout :: "RetryableState \<Rightarrow> Retryable \<Rightarrow> uint64 \<times> Retryable" where
  "Timeout rs retryable =
     (case r_timeout retryable of
        None \<Rightarrow>
          (let t = Big_Uint64 (Hash_Big (GetByUint64 rs (r_id retryable) timeoutOffset))
           in (t, retryable\<lparr>r_timeout := Some t\<rparr>))
      | Some t \<Rightarrow> (t, retryable))"

definition From :: "RetryableState \<Rightarrow> Retryable \<Rightarrow> Address \<times> Retryable" where
  "From rs retryable =
     (case r_from retryable of
        None \<Rightarrow>
          (let a = BytesToAddress (Hash_Bytes (GetByUint64 rs (r_id retryable) fromOffset))
           in (a, retryable\<lparr>r_from := Some a\<rparr>))
      | Some a \<Rightarrow> (a, retryable))"

text \<open>\<^verbatim>\<open>To\<close> returns the pointer: \<open>None\<close> would be \<^verbatim>\<open>nil\<close>.\<close>

definition To :: "RetryableState \<Rightarrow> Retryable \<Rightarrow> Address option \<times> Retryable" where
  "To rs retryable =
     (case r_to retryable of
        None \<Rightarrow>
          (let a = BytesToAddress (Hash_Bytes (GetByUint64 rs (r_id retryable) toOffset))
           in (Some a, retryable\<lparr>r_to := Some a\<rparr>))
      | Some a \<Rightarrow> (Some a, retryable))"

definition Callvalue :: "RetryableState \<Rightarrow> Retryable \<Rightarrow> int \<times> Retryable" where
  "Callvalue rs retryable =
     (case r_callvalue retryable of
        None \<Rightarrow>
          (let v = Hash_Big (GetByUint64 rs (r_id retryable) callvalueOffset)
           in (v, retryable\<lparr>r_callvalue := Some v\<rparr>))
      | Some v \<Rightarrow> (v, retryable))"

definition Calldata :: "RetryableState \<Rightarrow> Retryable \<Rightarrow> byte list \<times> Retryable" where
  "Calldata rs retryable =
     (case r_calldata retryable of
        None \<Rightarrow>
          (let d = GetBytes rs (r_id retryable)
           in (d, retryable\<lparr>r_calldata := Some d\<rparr>))
      | Some d \<Rightarrow> (d, retryable))"

definition SetTimeout ::
  "(int \<Rightarrow> Hash) \<Rightarrow> RetryableState \<Rightarrow> Retryable \<Rightarrow> uint64 \<Rightarrow> Retryable \<times> RetryableState" where
  "SetTimeout negHash rs retryable timeout =
     (retryable\<lparr>r_timeout := Some timeout\<rparr>,
      SetByUint64 rs (r_id retryable) timeoutOffset (IntToHash negHash (int64 timeout)))"

definition Keepalive ::
  "(int \<Rightarrow> Hash) \<Rightarrow> RetryableState \<Rightarrow> Hash \<Rightarrow> uint64 \<Rightarrow> uint64 \<Rightarrow> uint64 \<Rightarrow> bool \<times> RetryableState" where
  "Keepalive negHash rs ticketId currentTimestamp limitBeforeAdd timeToAdd =
     (case OpenRetryable rs ticketId currentTimestamp of
        None \<Rightarrow> (False, rs)
      | Some retryable \<Rightarrow>
          (case Timeout rs retryable of
             (timeout, retryable1) \<Rightarrow>
               if timeout > limitBeforeAdd then (False, rs)
               else (True, snd (SetTimeout negHash rs retryable1 (timeout + timeToAdd)))))"

text \<open>
  \<^verbatim>\<open>Equals\<close> ("for testing"). Each reader is called once on each handle, so the caches
  it fills do not change its result; the model returns the result only.
\<close>

definition Equals :: "RetryableState \<Rightarrow> Retryable \<Rightarrow> Retryable \<Rightarrow> bool" where
  "Equals rs retryable other =
     (if r_id retryable \<noteq> r_id other then False
      else if fst (Timeout rs retryable) \<noteq> fst (Timeout rs other) then False
      else if fst (From rs retryable) \<noteq> fst (From rs other) then False
      else
        (let rto = fst (To rs retryable); oto = fst (To rs other)
         in case rto of
              None \<Rightarrow>
                (case oto of
                   Some b \<Rightarrow> False
                 | None \<Rightarrow>
                     if fst (Callvalue rs retryable) \<noteq> fst (Callvalue rs other) then False
                     else if fst (Beneficiary rs retryable) \<noteq> fst (Beneficiary rs other)
                       then False
                     else fst (Calldata rs retryable) = fst (Calldata rs other))
            | Some a \<Rightarrow>
                (case oto of
                   None \<Rightarrow> False
                 | Some b \<Rightarrow>
                     if a \<noteq> b then False
                     else if fst (Callvalue rs retryable) \<noteq> fst (Callvalue rs other) then False
                     else if fst (Beneficiary rs retryable) \<noteq> fst (Beneficiary rs other)
                       then False
                     else fst (Calldata rs retryable) = fst (Calldata rs other))))"

text \<open>
  A proof device: the registry that \<^verbatim>\<open>CreateRetryable\<close> leaves when it returns, written
  as one record.
\<close>

definition created_registry :: "(int \<Rightarrow> Hash) \<Rightarrow> RetryableState \<Rightarrow> uint64 \<Rightarrow> Hash \<Rightarrow> uint64 \<Rightarrow> Address \<Rightarrow>
    Address \<Rightarrow> int \<Rightarrow> Address \<Rightarrow> byte list option \<Rightarrow> RetryableState" where
  "created_registry negHash rs now i t f a v b cd =
     \<lparr>retryables = (retryables (TryToReapOneRetryable rs now))
        (i := (retryables (TryToReapOneRetryable rs now) i)
           (numTriesOffset := 0, timeoutOffset := IntToHash negHash (int64 t),
            fromOffset := BytesToHash (Address_Bytes f), toOffset := BytesToHash (Address_Bytes a),
            callvalueOffset := BigToHash v, beneficiaryOffset := BytesToHash (Address_Bytes b))),
      calldataBytes = (calldataBytes (TryToReapOneRetryable rs now))
        (i := (case cd of None \<Rightarrow> [] | Some d \<Rightarrow> d)),
      timeoutQueue = timeoutQueue (TryToReapOneRetryable rs now) @ [i]\<rparr>"

text \<open>
  The inputs of the spec's end-to-end scenarios, used to instantiate the theorems: the
  ticket id \<open>0x11\<dots>11\<close>, and the registry after \<^verbatim>\<open>InitializeRetryableState\<close> and one
  \<^verbatim>\<open>CreateRetryable\<close> with the given timeout. The instances take go-ethereum's
  \<^verbatim>\<open>BigToHash\<close> for \<open>negHash\<close>.
\<close>

definition scenario_ticket :: Hash where
  "scenario_ticket = 0x1111111111111111111111111111111111111111111111111111111111111111"

definition scenario_registry :: "uint64 \<Rightarrow> RetryableState" where
  "scenario_registry timeout =
     (case CreateRetryable BigToHash InitializeRetryableState 0 scenario_ticket timeout 0xAA
             (Some 0xBB) (Some 0) 0xCC (Some []) of
        Inr (h, rs) \<Rightarrow> rs
      | Inl p \<Rightarrow> InitializeRetryableState)"

subsection \<open>Operations and reachable registries\<close>

text \<open>
  The operations of the registry as commands, and what each does to the registry. A panic
  ends the program and leaves no registry. \<^verbatim>\<open>IncrementNumTries\<close> takes any handle.
\<close>

datatype operation =
    OpCreateRetryable uint64 Hash uint64 Address "Address option" "int option" Address
      "byte list option"
  | OpOpenRetryable Hash uint64
  | OpDeleteRetryable Hash
  | OpKeepalive Hash uint64 uint64 uint64
  | OpRetryableSizeBytes Hash uint64
  | OpTryToReapOne uint64
  | OpIncrementNumTries Retryable

fun apply_operation :: "(int \<Rightarrow> Hash) \<Rightarrow> operation \<Rightarrow> RetryableState \<Rightarrow> panic + RetryableState" where
  "apply_operation negHash (OpCreateRetryable now ticketId timeout fromAddr toAddr callvalue
       beneficiary calldata) rs =
     (case CreateRetryable negHash rs now ticketId timeout fromAddr toAddr callvalue beneficiary
             calldata of
        Inl p \<Rightarrow> Inl p
      | Inr (retryable, rs') \<Rightarrow> Inr rs')"
| "apply_operation negHash (OpOpenRetryable ticketId now) rs =
     (case OpenRetryable rs ticketId now of None \<Rightarrow> Inr rs | Some retryable \<Rightarrow> Inr rs)"
| "apply_operation negHash (OpDeleteRetryable ticketId) rs =
     (case DeleteRetryable rs ticketId of (deleted, rs') \<Rightarrow> Inr rs')"
| "apply_operation negHash (OpKeepalive ticketId now limitBeforeAdd timeToAdd) rs =
     (case Keepalive negHash rs ticketId now limitBeforeAdd timeToAdd of (ok, rs') \<Rightarrow> Inr rs')"
| "apply_operation negHash (OpRetryableSizeBytes ticketId now) rs =
     (let sizeBytes = RetryableSizeBytes rs ticketId now in Inr rs)"
| "apply_operation negHash (OpTryToReapOne now) rs = Inr (TryToReapOneRetryable rs now)"
| "apply_operation negHash (OpIncrementNumTries retryable) rs =
     (case IncrementNumTries rs retryable of (n, retryable', rs') \<Rightarrow> Inr rs')"

inductive reachable :: "(int \<Rightarrow> Hash) \<Rightarrow> RetryableState \<Rightarrow> bool" for negHash where
  initial: "reachable negHash InitializeRetryableState"
| step: "reachable negHash rs \<Longrightarrow> apply_operation negHash op rs = Inr rs' \<Longrightarrow> reachable negHash rs'"

text \<open>Every live retryable (nonzero timeout slot) has its ticket id in the timeout queue.\<close>

definition queue_invariant :: "RetryableState \<Rightarrow> bool" where
  "queue_invariant rs =
     (\<forall>ticketId. GetByUint64 rs ticketId timeoutOffset \<noteq> 0 \<longrightarrow> ticketId \<in> set (timeoutQueue rs))"

section \<open>The JIT validation host\<close>

subsection \<open>Data\<close>

text \<open>
  \<^verbatim>\<open>validator.GoGlobalState\<close>, \<^verbatim>\<open>validator.BatchInfo\<close> and
  \<^verbatim>\<open>validator.ValidationInput\<close> as \<^verbatim>\<open>prove\<close> uses them and as the spec's data model
  lists them. \<^verbatim>\<open>Preimages\<close> is a Go map of maps; \<^verbatim>\<open>prove\<close> ranges over it, so it is
  given as the association lists of that iteration (distinct keys, in the order the
  runtime happens to choose). The field \<^verbatim>\<open>Id\<close> is \<open>Id'\<close> and the field \<^verbatim>\<open>BatchInfo\<close>
  is \<open>BatchInfos\<close>, since \<open>Id\<close> and \<open>BatchInfo\<close> name other things here.
\<close>

record GoGlobalState =
  Batch :: uint64
  PosInBatch :: uint64
  BlockHash :: Hash
  SendRoot :: Hash

record BatchInfo =
  Number :: uint64
  Data :: "byte list"

record ValidationInput =
  Id' :: uint64
  HasDelayedMsg :: bool
  DelayedMsgNr :: uint64
  Preimages :: "(byte \<times> (Hash \<times> byte list) list) list"
  BatchInfos :: "BatchInfo list"
  DelayedMsg :: "byte list"
  StartState :: GoGlobalState

text \<open>
  Errors: \<^verbatim>\<open>errors.New(text)\<close> with the bytes of its text, the two errors of
  \<^verbatim>\<open>io.ReadFull\<close> on a connection that ends early, and an error reported by the
  operating system for a pipe or socket call.
\<close>

datatype error =
    errors_New "byte list"
  | EOF
  | ErrUnexpectedEOF
  | OSError nat

text \<open>
  What a helper that returns \<^verbatim>\<open>(value, error)\<close> does: it returns a value, returns an
  error, or panics. What \<^verbatim>\<open>prove\<close> does: it returns its pair of a state and an error
  (\<open>None\<close> for \<^verbatim>\<open>nil\<close>), or panics and returns nothing.
\<close>

datatype 'a result = Value 'a | Error error | Panics panic

datatype outcome = Returns GoGlobalState "error option" | Panicked panic

text \<open>The bytes of a Go string literal of ASCII characters.\<close>

definition string_bytes :: "string \<Rightarrow> byte list" where
  "string_bytes s = map (\<lambda>c. word_of_nat (of_char c)) s"

text \<open>
  Modelled from the spec: \<^verbatim>\<open>arbmath.UintToBytes\<close> is code of the repository that is not
  among the source files. The spec has every wire integer written by it as 8 bytes,
  big-endian (the preimage count of the empty map is "8-byte zero").
\<close>

definition UintToBytes :: "uint64 \<Rightarrow> byte list" where
  "UintToBytes v = be_bytes 8 (unat v)"

subsection \<open>The world outside\<close>

text \<open>
  What the operating system and the child process do is the environment of a call of
  \<^verbatim>\<open>prove\<close>: whether each call on the listener, on the child's stdin and on the
  connection succeeds, the address the listener got, and the bytes the child sends on the
  connection before it closes it. \<open>maxAlloc\<close> is the longest byte slice the Go runtime of
  the host allocates (\<open>2^48\<close> bytes on linux/amd64, less where memory is short): beyond it
  \<^verbatim>\<open>make([]byte, count)\<close> panics, and on every host it panics for a \<^verbatim>\<open>uint64\<close> count of
  \<open>2^63\<close> or more, which does not fit \<^verbatim>\<open>int\<close>. What \<^verbatim>\<open>prove\<close> does to the world is the
  sequence of the calls it makes. The goroutines that close the listener and the connection when the
  context is done run after \<^verbatim>\<open>prove\<close> has its result and are outside the model.
\<close>

record JitEnv =
  ListenTCP_err :: "error option"
  SetDeadline_err :: "error option"
  Addr_String :: "byte list"
  stdin_Write_err :: "error option"
  Accept_err :: "error option"
  SetReadDeadline_err :: "error option"
  SetWriteDeadline_err :: "error option"
  conn_Write_err :: "nat \<Rightarrow> error option"
  conn_input :: "byte list"
  maxAlloc :: nat

datatype event =
    EvListenTCP
  | EvSetDeadline
  | EvStdinWrite "byte list"
  | EvAccept
  | EvSetReadDeadline
  | EvSetWriteDeadline
  | EvConnWrite "byte list"
  | EvConnRead nat

text \<open>
  The connection while \<^verbatim>\<open>prove\<close> runs: the calls made so far, how many of them were
  \<^verbatim>\<open>conn.Write\<close>, and the bytes of the child not yet read.
\<close>

record Conn =
  events :: "event list"
  nwrites :: nat
  unread :: "byte list"

text \<open>The bytes handed to \<^verbatim>\<open>conn.Write\<close>, in order.\<close>

fun sent_bytes :: "event list \<Rightarrow> byte list" where
  "sent_bytes [] = []"
| "sent_bytes (EvConnWrite data # evs) = data @ sent_bytes evs"
| "sent_bytes (ev # evs) = sent_bytes evs"

subsection \<open>The ignore list\<close>

text \<open>
  \<^verbatim>\<open>ignoreProveBlocks\<close> of \<^verbatim>\<open>validator/server_jit/jit_machine.go\<close>, entry by entry.
  Another revision of the file has more entries and the same \<^verbatim>\<open>prove\<close>; what is proved
  about the list below holds for whatever entries it has.
\<close>

definition ignoreProveBlocks :: "(uint64 \<times> GoGlobalState) list" where
  "ignoreProveBlocks =
     [
      (4083577, \<lparr>Batch = 9178, PosInBatch = 480,
         BlockHash = 0xda2d176f5b585b131e1272efbfe458d4682938263fdeda42982083fb14186a84,
         SendRoot = 0x73e3fd5339538bb97fb2ab3f1affc7971c8ea591c1f324e22cbc5b4d01b7b4ee\<rparr>),
      (4083578, \<lparr>Batch = 9178, PosInBatch = 481,
         BlockHash = 0x4643b7fc485bb82016e471e5b529350d7214254a268db44441674245c3a7517c,
         SendRoot = 0x73e3fd5339538bb97fb2ab3f1affc7971c8ea591c1f324e22cbc5b4d01b7b4ee\<rparr>),
      (4083579, \<lparr>Batch = 9178, PosInBatch = 482,
         BlockHash = 0x7f844e45bda074a45d1def5c782cb935c08ce41b70e1ed47630f6c6fb09d3dee,
         SendRoot = 0x73e3fd5339538bb97fb2ab3f1affc7971c8ea591c1f324e22cbc5b4d01b7b4ee\<rparr>),
      (4083580, \<lparr>Batch = 9178, PosInBatch = 483,
         BlockHash = 0xab716dec1cddcd6dbc8a030faf5e42d8a21564954fe41ce056e32786f07c1c27,
         SendRoot = 0x73e3fd5339538bb97fb2ab3f1affc7971c8ea591c1f324e22cbc5b4d01b7b4ee\<rparr>),
      (4083581, \<lparr>Batch = 9178, PosInBatch = 484,
         BlockHash = 0xe48aa1956b16280067fecbacc204ae7f8ef88c0545ddb31324610f0cd9ce7665,
         SendRoot = 0x73e3fd5339538bb97fb2ab3f1affc7971c8ea591c1f324e22cbc5b4d01b7b4ee\<rparr>),
      (4083583, \<lparr>Batch = 9178, PosInBatch = 486,
         BlockHash = 0xbca6c7d5d8a7384d7420d2cf99c90e7982e0fbc5da77f45de840351a3778988a,
         SendRoot = 0x73e3fd5339538bb97fb2ab3f1affc7971c8ea591c1f324e22cbc5b4d01b7b4ee\<rparr>),
      (4083584, \<lparr>Batch = 9178, PosInBatch = 487,
         BlockHash = 0xde2b7be88b2838094cad4c5fca4e1c8984a81b678f6ced24ffeacca0988a9946,
         SendRoot = 0x73e3fd5339538bb97fb2ab3f1affc7971c8ea591c1f324e22cbc5b4d01b7b4ee\<rparr>),
      (4083585, \<lparr>Batch = 9178, PosInBatch = 488,
         BlockHash = 0x3146e38c86d842493946b714a5b5f75e2b0f552c7ba7acfd7d034696d56544fc,
         SendRoot = 0x73e3fd5339538bb97fb2ab3f1affc7971c8ea591c1f324e22cbc5b4d01b7b4ee\<rparr>),
      (4083586, \<lparr>Batch = 9178, PosInBatch = 489,
         BlockHash = 0x8054732b1def267a85382edb974f435ca3f44d9c700b23c88b281a5fafa4d9f4,
         SendRoot = 0x73e3fd5339538bb97fb2ab3f1affc7971c8ea591c1f324e22cbc5b4d01b7b4ee\<rparr>),
      (4083587, \<lparr>Batch = 9178, PosInBatch = 490,
         BlockHash = 0x7a4ef5ef2e7c4aa9f36ded5edcc8c47f587a403e407911da83a72a4efab292e2,
         SendRoot = 0x73e3fd5339538bb97fb2ab3f1affc7971c8ea591c1f324e22cbc5b4d01b7b4ee\<rparr>),
      (4083588, \<lparr>Batch = 9178, PosInBatch = 491,
         BlockHash = 0x80250435557ced666a271de830306624a019fd101b4e4ca041551dd78d612702,
         SendRoot = 0x73e3fd5339538bb97fb2ab3f1affc7971c8ea591c1f324e22cbc5b4d01b7b4ee\<rparr>),
      (4083589, \<lparr>Batch = 9178, PosInBatch = 492,
         BlockHash = 0x7b3baf30c3a8d7b0fc40d6efab0b943f1f37aba28eb77774681f8c337c3df870,
         SendRoot = 0x73e3fd5339538bb97fb2ab3f1affc7971c8ea591c1f324e22cbc5b4d01b7b4ee\<rparr>),
      (4083590, \<lparr>Batch = 9178, PosInBatch = 493,
         BlockHash = 0x5b31ddcd152beed2b56bf36ab68ae90daf9f7a7141a663de0254bf3549dfc0dd,
         SendRoot = 0x73e3fd5339538bb97fb2ab3f1affc7971c8ea591c1f324e22cbc5b4d01b7b4ee\<rparr>),
      (4083591, \<lparr>Batch = 9178, PosInBatch = 494,
         BlockHash = 0x3ba2aca6f6ec209b642fe6f8cfcddda1ae23c3ed3e4124c544298b139d107545,
         SendRoot = 0x73e3fd5339538bb97fb2ab3f1affc7971c8ea591c1f324e22cbc5b4d01b7b4ee\<rparr>)
     ]"

subsection \<open>Writing and reading\<close>

definition successByte :: byte where "successByte = 0x0"
definition failureByte :: byte where "failureByte = 0x1"
definition anotherByte :: byte where "anotherByte = 0x3"
definition readyByte :: byte where "readyByte = 0x4"

definition writeExact :: "JitEnv \<Rightarrow> byte list \<Rightarrow> Conn \<Rightarrow> error option \<times> Conn" where
  "writeExact env data c =
     (conn_Write_err env (nwrites c),
      c\<lparr>events := events c @ [EvConnWrite data], nwrites := Suc (nwrites c)\<rparr>)"

text \<open>\<^verbatim>\<open>if err := f(); err != nil { return state, err }\<close>, then the rest.\<close>

definition andThen ::
  "(Conn \<Rightarrow> error option \<times> Conn) \<Rightarrow> (Conn \<Rightarrow> error option \<times> Conn) \<Rightarrow> Conn \<Rightarrow> error option \<times> Conn" where
  "andThen f g c = (case f c of (Some err, c') \<Rightarrow> (Some err, c') | (None, c') \<Rightarrow> g c')"

definition writeUint8 :: "JitEnv \<Rightarrow> byte \<Rightarrow> Conn \<Rightarrow> error option \<times> Conn" where
  "writeUint8 env data = writeExact env [data]"

definition writeUint64 :: "JitEnv \<Rightarrow> uint64 \<Rightarrow> Conn \<Rightarrow> error option \<times> Conn" where
  "writeUint64 env data = writeExact env (UintToBytes data)"

definition writeBytes :: "JitEnv \<Rightarrow> byte list \<Rightarrow> Conn \<Rightarrow> error option \<times> Conn" where
  "writeBytes env data =
     andThen (writeUint64 env (word_of_nat (length data))) (writeExact env data)"

text \<open>The loop over \<^verbatim>\<open>entry.BatchInfo\<close>.\<close>

fun send_inbox :: "JitEnv \<Rightarrow> BatchInfo list \<Rightarrow> Conn \<Rightarrow> error option \<times> Conn" where
  "send_inbox env [] = (\<lambda>c. (None, c))"
| "send_inbox env (batch # rest) =
     andThen (writeExact env [anotherByte])
       (andThen (writeUint64 env (Number batch))
          (andThen (writeBytes env (Data batch)) (send_inbox env rest)))"

text \<open>The loop over the preimages of one kind, and the loop over the kinds.\<close>

fun send_preimages :: "JitEnv \<Rightarrow> (Hash \<times> byte list) list \<Rightarrow> Conn \<Rightarrow> error option \<times> Conn" where
  "send_preimages env [] = (\<lambda>c. (None, c))"
| "send_preimages env ((hash, preimage) # rest) =
     andThen (writeExact env (Hash_Bytes hash))
       (andThen (writeBytes env preimage) (send_preimages env rest))"

fun send_preimage_types ::
  "JitEnv \<Rightarrow> (byte \<times> (Hash \<times> byte list) list) list \<Rightarrow> Conn \<Rightarrow> error option \<times> Conn" where
  "send_preimage_types env [] = (\<lambda>c. (None, c))"
| "send_preimage_types env ((ty, preimages) # rest) =
     andThen (writeUint8 env ty)
       (andThen (writeUint64 env (word_of_nat (length preimages)))
          (andThen (send_preimages env preimages) (send_preimage_types env rest)))"

text \<open>Everything \<^verbatim>\<open>prove\<close> writes to the connection, from the start state to the ready byte.\<close>

definition send_request :: "JitEnv \<Rightarrow> ValidationInput \<Rightarrow> Conn \<Rightarrow> error option \<times> Conn" where
  "send_request env entry =
     andThen (writeUint64 env (Batch (StartState entry)))
    (andThen (writeUint64 env (PosInBatch (StartState entry)))
    (andThen (writeExact env (Hash_Bytes (BlockHash (StartState entry))))
    (andThen (writeExact env (Hash_Bytes (SendRoot (StartState entry))))
    (andThen (send_inbox env (BatchInfos entry))
    (andThen (writeExact env [successByte])
    (andThen (if HasDelayedMsg entry
              then andThen (writeExact env [anotherByte])
                     (andThen (writeUint64 env (DelayedMsgNr entry))
                        (writeBytes env (DelayedMsg entry)))
              else (\<lambda>c. (None, c)))
    (andThen (writeExact env [successByte])
    (andThen (writeUint64 env (word_of_nat (length (Preimages entry))))
    (andThen (send_preimage_types env (Preimages entry))
             (writeExact env [readyByte]))))))))))"

text \<open>
  \<^verbatim>\<open>read(count)\<close> first makes a slice of \<^verbatim>\<open>count\<close> bytes, which panics when the count
  is beyond what the runtime allocates, and then is \<^verbatim>\<open>io.ReadFull\<close> into it: all of the
  bytes, or an error when the connection ends first (\<^verbatim>\<open>io.EOF\<close> when nothing was read).
  A slice of length zero is filled without a call.
\<close>

definition read :: "JitEnv \<Rightarrow> nat \<Rightarrow> Conn \<Rightarrow> byte list result \<times> Conn" where
  "read env count c =
     (if 2 ^ 63 \<le> count \<or> maxAlloc env < count then (Panics MakesliceLenOutOfRange, c)
      else if count = 0 then (Value [], c)
      else if count \<le> length (unread c)
      then (Value (take count (unread c)),
            c\<lparr>events := events c @ [EvConnRead count], unread := drop count (unread c)\<rparr>)
      else (Error (if unread c = [] then EOF else ErrUnexpectedEOF),
            c\<lparr>events := events c @ [EvConnRead count], unread := []\<rparr>))"

definition readUint64 :: "JitEnv \<Rightarrow> Conn \<Rightarrow> uint64 result \<times> Conn" where
  "readUint64 env c =
     (case read env 8 c of
        (Panics p, c') \<Rightarrow> (Panics p, c')
      | (Error err, c') \<Rightarrow> (Error err, c')
      | (Value buf, c') \<Rightarrow> (Value (BigEndian_Uint64 buf), c'))"

definition readHash :: "JitEnv \<Rightarrow> Conn \<Rightarrow> Hash result \<times> Conn" where
  "readHash env c =
     (case read env 32 c of
        (Panics p, c') \<Rightarrow> (Panics p, c')
      | (Error err, c') \<Rightarrow> (Error err, c')
      | (Value buf, c') \<Rightarrow> (Value (BytesToHash buf), c'))"

text \<open>
  The final \<^verbatim>\<open>for\<close> loop of \<^verbatim>\<open>prove\<close>: every branch of its body returns, so the body
  runs once. A failed \<^verbatim>\<open>readUint64\<close> or \<^verbatim>\<open>readHash\<close> assigns the zero value before the
  error is returned. The length of the failure message is the \<^verbatim>\<open>uint64\<close> the child
  announced, handed to \<^verbatim>\<open>read\<close> as it is.
\<close>

definition read_response :: "JitEnv \<Rightarrow> GoGlobalState \<Rightarrow> Conn \<Rightarrow> outcome \<times> Conn" where
  "read_response env state c =
     (case read env 1 c of
        (Panics p, c1) \<Rightarrow> (Panicked p, c1)
      | (Error err, c1) \<Rightarrow> (Returns state (Some err), c1)
      | (Value kind, c1) \<Rightarrow>
          (case kind of
             [] \<Rightarrow> (Panicked IndexOutOfRange, c1)
           | k # ks \<Rightarrow>
               if k = failureByte then
                 (case readUint64 env c1 of
                    (Panics p, c2) \<Rightarrow> (Panicked p, c2)
                  | (Error err, c2) \<Rightarrow> (Returns state (Some err), c2)
                  | (Value msgLen, c2) \<Rightarrow>
                      (case read env (unat msgLen) c2 of
                         (Panics p, c3) \<Rightarrow> (Panicked p, c3)
                       | (Error err, c3) \<Rightarrow> (Returns state (Some err), c3)
                       | (Value message, c3) \<Rightarrow>
                           (Returns state (Some (errors_New message)), c3)))
               else if k = successByte then
                 (case readUint64 env c1 of
                    (Panics p, c2) \<Rightarrow> (Panicked p, c2)
                  | (Error err, c2) \<Rightarrow> (Returns (state\<lparr>Batch := 0\<rparr>) (Some err), c2)
                  | (Value b, c2) \<Rightarrow>
                      (case readUint64 env c2 of
                         (Panics p, c3) \<Rightarrow> (Panicked p, c3)
                       | (Error err, c3) \<Rightarrow>
                           (Returns (state\<lparr>Batch := b, PosInBatch := 0\<rparr>) (Some err), c3)
                       | (Value p, c3) \<Rightarrow>
                           (case readHash env c3 of
                              (Panics pn, c4) \<Rightarrow> (Panicked pn, c4)
                            | (Error err, c4) \<Rightarrow>
                                (Returns (state\<lparr>Batch := b, PosInBatch := p, BlockHash := 0\<rparr>)
                                   (Some err), c4)
                            | (Value bh, c4) \<Rightarrow>
                                (case readHash env c4 of
                                   (Panics pn, c5) \<Rightarrow> (Panicked pn, c5)
                                 | (Error err, c5) \<Rightarrow>
                                     (Returns (state\<lparr>Batch := b, PosInBatch := p,
                                                BlockHash := bh, SendRoot := 0\<rparr>) (Some err), c5)
                                 | (Value sr, c5) \<Rightarrow>
                                     (Returns (state\<lparr>Batch := b, PosInBatch := p,
                                                BlockHash := bh, SendRoot := sr\<rparr>) None, c5)))))
               else
                 (Returns state
                    (Some (errors_New (string_bytes ''inter-process communication failure''))),
                  c1)))"

subsection \<open>prove\<close>

text \<open>
  \<^verbatim>\<open>prove\<close> gives its outcome and the calls it made. \<^verbatim>\<open>GoGlobalState{}\<close> is the
  all-zero state.
\<close>

definition zeroGlobalState :: GoGlobalState where
  "zeroGlobalState = \<lparr>Batch = 0, PosInBatch = 0, BlockHash = 0, SendRoot = 0\<rparr>"

definition prove :: "JitEnv \<Rightarrow> ValidationInput \<Rightarrow> outcome \<times> event list" where
  "prove env entry =
     (let state = zeroGlobalState
      in case map_of ignoreProveBlocks (Id' entry) of
           Some s \<Rightarrow> (Returns s None, [])
         | None \<Rightarrow>
             (case ListenTCP_err env of
                Some err \<Rightarrow> (Returns state (Some err), [EvListenTCP])
              | None \<Rightarrow>
             (case SetDeadline_err env of
                Some err \<Rightarrow> (Returns state (Some err), [EvListenTCP, EvSetDeadline])
              | None \<Rightarrow>
             (let address = Addr_String env @ [0x0A]
              in case stdin_Write_err env of
                Some err \<Rightarrow>
                  (Returns state (Some err), [EvListenTCP, EvSetDeadline, EvStdinWrite address])
              | None \<Rightarrow>
             (case Accept_err env of
                Some err \<Rightarrow>
                  (Returns state (Some err),
                   [EvListenTCP, EvSetDeadline, EvStdinWrite address, EvAccept])
              | None \<Rightarrow>
             (case SetReadDeadline_err env of
                Some err \<Rightarrow>
                  (Returns state (Some err),
                   [EvListenTCP, EvSetDeadline, EvStdinWrite address, EvAccept,
                    EvSetReadDeadline])
              | None \<Rightarrow>
             (case SetWriteDeadline_err env of
                Some err \<Rightarrow>
                  (Returns state (Some err),
                   [EvListenTCP, EvSetDeadline, EvStdinWrite address, EvAccept,
                    EvSetReadDeadline, EvSetWriteDeadline])
              | None \<Rightarrow>
                  (let c0 = \<lparr>events = [EvListenTCP, EvSetDeadline, EvStdinWrite address,
                                        EvAccept, EvSetReadDeadline, EvSetWriteDeadline],
                             nwrites = 0, unread = conn_input env\<rparr>
                   in case send_request env entry c0 of
                        (Some err, c1) \<Rightarrow> (Returns state (Some err), events c1)
                      | (None, c1) \<Rightarrow>
                          (case read_response env state c1 of
                             (result, c2) \<Rightarrow> (result, events c2))))))))))"

text \<open>
  The environment in which every call on the listener, the child's stdin and the
  connection succeeds.
\<close>

definition env_ok :: "JitEnv \<Rightarrow> bool" where
  "env_ok env =
     (ListenTCP_err env = None \<and> SetDeadline_err env = None \<and> stdin_Write_err env = None
      \<and> Accept_err env = None \<and> SetReadDeadline_err env = None
      \<and> SetWriteDeadline_err env = None \<and> (\<forall>n. conn_Write_err env n = None))"

text \<open>
  A proof device: a sequence of writes that succeeds from every connection state and reads
  nothing.
\<close>

definition passes :: "(Conn \<Rightarrow> error option \<times> Conn) \<Rightarrow> bool" where
  "passes f = (\<forall>c. \<exists>c'. f c = (None, c') \<and> unread c' = unread c)"

text \<open>
  The inputs of the spec's end-to-end scenarios for \<^verbatim>\<open>prove\<close>: an environment where every
  call succeeds and the child answers with the given bytes, and the request with empty
  \<^verbatim>\<open>BatchInfo\<close>, no delayed message, no preimages and start state
  \<open>{batch = 7, pos = 3, block_hash = 0xaa\<dots>, send_root = 0xbb\<dots>}\<close>.
\<close>

definition scenario_env :: "byte list \<Rightarrow> JitEnv" where
  "scenario_env response =
     \<lparr>ListenTCP_err = None, SetDeadline_err = None,
      Addr_String = string_bytes ''127.0.0.1:40000'', stdin_Write_err = None, Accept_err = None,
      SetReadDeadline_err = None, SetWriteDeadline_err = None,
      conn_Write_err = (\<lambda>n. None), conn_input = response, maxAlloc = 2 ^ 48\<rparr>"

definition scenario_input :: "uint64 \<Rightarrow> ValidationInput" where
  "scenario_input n =
     \<lparr>Id' = n, HasDelayedMsg = False, DelayedMsgNr = 0, Preimages = [], BatchInfos = [],
      DelayedMsg = [],
      StartState = \<lparr>Batch = 7, PosInBatch = 3,
        BlockHash = 0xaaaaaaaaaaaaaaaaaaaaaaaaaaaaaaaaaaaaaaaaaaaaaaaaaaaaaaaaaaaaaaaa,
        SendRoot = 0xbbbbbbbbbbbbbbbbbbbbbbbbbbbbbbbbbbbbbbbbbbbbbbbbbbbbbbbbbbbbbbbb\<rparr>\<rparr>"


section \<open>Facts about the encodings\<close>

lemma length_be_bytes: "length (be_bytes n v) = n"
  by (induction n arbitrary: v) simp_all

lemma be_val_be_bytes: "be_val (be_bytes n v) = v mod 256 ^ n"
proof (induction n arbitrary: v)
  case 0
  show ?case by simp
next
  case (Suc n)
  have "be_val (be_bytes (Suc n) v) =
      be_val (be_bytes n (v div 256)) * 256 + unat (word_of_nat (v mod 256) :: byte)"
    by simp
  also have "unat (word_of_nat (v mod 256) :: byte) = v mod 256"
    by (simp add: unat_of_nat)
  also have "be_val (be_bytes n (v div 256)) = (v div 256) mod 256 ^ n"
    by (rule Suc.IH)
  finally show ?case
    by (simp add: mod_mult2_eq mult.commute)
qed

lemma le_val_le_bytes: "le_val (le_bytes n v) = v mod 256 ^ n"
proof (induction n arbitrary: v)
  case 0
  show ?case by simp
next
  case (Suc n)
  have "unat (word_of_nat (v mod 256) :: byte) = v mod 256"
    by (simp add: unat_of_nat)
  then show ?case
    by (simp add: Suc.IH mod_mult2_eq)
qed

lemma byte_of_shift:
  "(ucast (drop_bit k (v::uint64)) :: byte) = word_of_nat (unat v div 2 ^ k mod 256)"
proof -
  have "unat (ucast (drop_bit k v) :: byte) = take_bit LENGTH(8) (unat (drop_bit k v))"
    by (rule unsigned_ucast_eq)
  also have "\<dots> = take_bit 8 (drop_bit k (unat v))"
    by (simp only: unat_drop_bit_eq) simp
  also have "\<dots> = unat v div 2 ^ k mod 256"
    by (simp add: take_bit_eq_mod drop_bit_eq_div)
  finally have "unat (ucast (drop_bit k v) :: byte) = unat v div 2 ^ k mod 256" .
  then have "word_of_nat (unat (ucast (drop_bit k v) :: byte)) =
      (word_of_nat (unat v div 2 ^ k mod 256) :: byte)"
    by (rule arg_cong)
  then show ?thesis by simp
qed

lemma div_256_pow: "(x::nat) div 2 ^ k div 256 = x div 2 ^ (k + 8)"
  by (simp add: div_mult2_eq power_add)

lemma le_bytes_8: "le_bytes 8 x =
  [word_of_nat (x div 2 ^ 0 mod 256), word_of_nat (x div 2 ^ 8 mod 256),
   word_of_nat (x div 2 ^ 16 mod 256), word_of_nat (x div 2 ^ 24 mod 256),
   word_of_nat (x div 2 ^ 32 mod 256), word_of_nat (x div 2 ^ 40 mod 256),
   word_of_nat (x div 2 ^ 48 mod 256), word_of_nat (x div 2 ^ 56 mod 256)]"
proof -
  have e: "le_bytes 8 y = [word_of_nat (y mod 256), word_of_nat (y div 256 mod 256),
      word_of_nat (y div 256 div 256 mod 256), word_of_nat (y div 256 div 256 div 256 mod 256),
      word_of_nat (y div 256 div 256 div 256 div 256 mod 256),
      word_of_nat (y div 256 div 256 div 256 div 256 div 256 mod 256),
      word_of_nat (y div 256 div 256 div 256 div 256 div 256 div 256 mod 256),
      word_of_nat (y div 256 div 256 div 256 div 256 div 256 div 256 div 256 mod 256)]" for y
  proof -
    have "(8::nat) = Suc (Suc (Suc (Suc (Suc (Suc (Suc (Suc 0)))))))" by simp
    then show ?thesis by (simp only: le_bytes.simps)
  qed
  have d0: "x div 256 = x div 2 ^ 8" by simp
  show ?thesis
    unfolding e d0 div_256_pow by simp
qed

lemma PutUint64_le_bytes: "LittleEndian_PutUint64 v = le_bytes 8 (unat v)"
proof -
  have "(ucast v :: byte) = word_of_nat (unat v div 2 ^ 0 mod 256)"
    using byte_of_shift [of 0 v] by simp
  then show ?thesis
    unfolding le_bytes_8 LittleEndian_PutUint64_def byte_of_shift by simp
qed

lemma le_val_PutUint64: "le_val (LittleEndian_PutUint64 v) = unat v"
proof -
  have "unat v < 256 ^ 8" using unsigned_less [of v] by simp
  then show ?thesis by (simp only: PutUint64_le_bytes le_val_le_bytes mod_less)
qed

lemma be_val_Hash_Bytes: "be_val (Hash_Bytes h) = unat h"
proof -
  have "unat h < 256 ^ 32" using unsigned_less [of h] by simp
  then show ?thesis by (simp only: Hash_Bytes_def be_val_be_bytes mod_less)
qed

lemma be_val_Address_Bytes: "be_val (Address_Bytes a) = unat a"
proof -
  have "unat a < 256 ^ 20" using unsigned_less [of a] by simp
  then show ?thesis by (simp only: Address_Bytes_def be_val_be_bytes mod_less)
qed

lemma Hash_Bytes_zero: "Hash_Bytes 0 = replicate 32 0"
proof -
  have "be_bytes n 0 = replicate n 0" for n
    by (induction n) (simp_all add: replicate_append_same)
  then show ?thesis by (simp add: Hash_Bytes_def)
qed

section \<open>Facts about the storage and the readers\<close>

lemmas offsets = numTriesOffset_def timeoutOffset_def fromOffset_def toOffset_def
  callvalueOffset_def beneficiaryOffset_def

lemma Get_Set: "GetByUint64 (SetByUint64 rs i off v) j off' =
   (if j = i \<and> off' = off then v else GetByUint64 rs j off')"
  by (simp add: GetByUint64_def SetByUint64_def)

lemma Get_WriteBytes: "GetByUint64 (WriteBytes rs i d) j off = GetByUint64 rs j off"
  by (simp add: GetByUint64_def WriteBytes_def)

lemma Get_DeleteBytes: "GetByUint64 (DeleteBytes rs i) j off = GetByUint64 rs j off"
  by (simp add: GetByUint64_def DeleteBytes_def)

lemma Get_Queue_Put: "GetByUint64 (Queue_Put rs i) j off = GetByUint64 rs j off"
  by (simp add: GetByUint64_def Queue_Put_def)

lemma Get_queue_update: "GetByUint64 (rs\<lparr>timeoutQueue := q\<rparr>) j off = GetByUint64 rs j off"
  by (simp add: GetByUint64_def)

lemma queue_Set: "timeoutQueue (SetByUint64 rs i off v) = timeoutQueue rs"
  by (simp add: SetByUint64_def)

lemma queue_WriteBytes: "timeoutQueue (WriteBytes rs i d) = timeoutQueue rs"
  by (simp add: WriteBytes_def)

lemma queue_DeleteBytes: "timeoutQueue (DeleteBytes rs i) = timeoutQueue rs"
  by (simp add: DeleteBytes_def)

lemma queue_Put: "timeoutQueue (Queue_Put rs i) = timeoutQueue rs @ [i]"
  by (simp add: Queue_Put_def)

lemma Open_None_iff: "OpenRetryable rs i now = None \<longleftrightarrow> GetByUint64 rs i timeoutOffset = 0"
  by (simp add: OpenRetryable_def)

lemma Open_Some: "OpenRetryable rs i now = Some r \<Longrightarrow> r = lazyRetryable i \<and> GetByUint64 rs i timeoutOffset \<noteq> 0"
  by (simp add: OpenRetryable_def split: if_splits)

lemma Open_queue_update: "OpenRetryable (rs\<lparr>timeoutQueue := q\<rparr>) i now = OpenRetryable rs i now"
  by (simp add: OpenRetryable_def Get_queue_update)

lemma TryToReap_eq:
  "TryToReapOneRetryable rs now =
     (case timeoutQueue rs of
        [] \<Rightarrow> rs
      | ticketId # rest \<Rightarrow>
          (case OpenRetryable rs ticketId now of
             Some retryable \<Rightarrow> rs\<lparr>timeoutQueue := rest @ [ticketId]\<rparr>
           | None \<Rightarrow> rs\<lparr>timeoutQueue := rest\<rparr>))"
  by (simp add: TryToReapOneRetryable_def Queue_IsEmpty_def Queue_Get_def Queue_Put_def
      Open_queue_update split: list.splits option.splits)


lemma sint_nonneg_uint: "0 \<le> sint (t::uint64) \<Longrightarrow> sint t = uint t"
proof -
  assume a: "0 \<le> sint t"
  have "sint t < 2 ^ (LENGTH(64) - Suc 0)" by (rule sint_less)
  then have "sint t < 2 ^ LENGTH(64)" by simp
  with a have "take_bit LENGTH(64) (sint t) = sint t"
    by (simp only: take_bit_int_eq_self)
  then show ?thesis by (simp only: uint_sint)
qed

lemma IntToHash_nonneg:
  assumes "0 \<le> int64 t"
  shows "IntToHash negHash (int64 t) = ucast t"
proof -
  from assms have "int64 t = uint t" by (simp add: int64_def sint_nonneg_uint)
  moreover have "0 \<le> uint t" by simp
  ultimately have "IntToHash negHash (int64 t) = word_of_int (uint t)"
    by (simp only: IntToHash_def if_True)
  then show ?thesis by (simp only: ucast_eq)
qed

lemma IntToHash_zero: "IntToHash negHash (int64 0) = 0"
  by (simp add: IntToHash_def int64_def)

lemma ucast_up_zero_iff: "(ucast (t::uint64) :: Hash) = 0 \<longleftrightarrow> t = 0"
proof -
  have "is_up (ucast :: uint64 \<Rightarrow> Hash)" by (simp add: is_up)
  then show ?thesis
    by (metis ucast_0 ucast_up_ucast_id)
qed

lemma Uint64_Big_ucast: "Big_Uint64 (Hash_Big (ucast (t::uint64))) = t"
proof -
  have "is_up (ucast :: uint64 \<Rightarrow> Hash)" by (simp add: is_up)
  then have "ucast (ucast t :: Hash) = t" by (rule ucast_up_ucast_id)
  moreover have "Big_Uint64 (Hash_Big h) = ucast h" for h
    by (simp only: Big_Uint64_def Hash_Big_def ucast_eq)
  ultimately show ?thesis by simp
qed

lemma Timeout_lazy:
  "Timeout rs (lazyRetryable i) =
     (Big_Uint64 (Hash_Big (GetByUint64 rs i timeoutOffset)),
      (lazyRetryable i)\<lparr>r_timeout := Some (Big_Uint64 (Hash_Big (GetByUint64 rs i timeoutOffset)))\<rparr>)"
  by (simp add: Timeout_def lazyRetryable_def Let_def)

lemma Timeout_cached: "r_timeout r = Some t \<Longrightarrow> Timeout rs r = (t, r)"
  by (simp add: Timeout_def)

lemma SetTimeout_eq:
  "SetTimeout negHash rs r t =
     (r\<lparr>r_timeout := Some t\<rparr>, SetByUint64 rs (r_id r) timeoutOffset (IntToHash negHash (int64 t)))"
  by (simp add: SetTimeout_def)

lemma Keepalive_absent:
  "OpenRetryable rs i now = None \<Longrightarrow> Keepalive negHash rs i now lim add = (False, rs)"
  by (simp add: Keepalive_def)

lemma Keepalive_early:
  assumes "OpenRetryable rs i now = Some r" and "lim < fst (Timeout rs r)"
  shows "Keepalive negHash rs i now lim add = (False, rs)"
proof (cases "Timeout rs r")
  case (Pair t r1)
  with assms show ?thesis by (simp add: Keepalive_def)
qed

lemma Keepalive_extend:
  assumes "OpenRetryable rs i now = Some r" and "fst (Timeout rs r) \<le> lim"
  shows "Keepalive negHash rs i now lim add =
     (True, SetByUint64 rs i timeoutOffset (IntToHash negHash (int64 (fst (Timeout rs r) + add))))"
proof (cases "Timeout rs r")
  case (Pair t r1)
  from assms(1) have r: "r = lazyRetryable i" by (simp add: Open_Some)
  from Pair have "r_id r1 = i"
    unfolding r Timeout_lazy by (auto simp: lazyRetryable_def)
  with assms Pair show ?thesis
    by (simp add: Keepalive_def SetTimeout_eq not_less [symmetric])
qed

lemma int64_small: "unat (t::uint64) < 2 ^ 63 \<Longrightarrow> int64 t = int (unat t)"
proof -
  assume a: "unat t < 2 ^ 63"
  then have "int (unat t) < 2 ^ 63" by (metis of_nat_less_iff of_nat_numeral of_nat_power)
  then have b: "uint t < 2 ^ 63" by simp
  have "- (2 ^ 63) \<le> uint t" by (rule order_trans [of _ 0]) simp_all
  with b have "signed_take_bit 63 (uint t) = uint t"
    by (simp only: signed_take_bit_int_eq_self)
  moreover have "sint t = signed_take_bit (LENGTH(64) - Suc 0) (uint t)" by (rule sint_uint)
  ultimately show ?thesis by (simp add: int64_def)
qed

lemma int64_small_nonneg: "unat (t::uint64) < 2 ^ 63 \<Longrightarrow> 0 \<le> int64 t"
  by (simp add: int64_small)


lemma Create_ok:
  "CreateRetryable negHash rs now i t f (Some a) (Some v) b cd =
     Inr (\<lparr>r_id = i, r_numTries = Some 0, r_timeout = Some t, r_from = Some f, r_to = Some a,
           r_callvalue = Some v, r_beneficiary = Some b, r_calldata = cd\<rparr>,
          created_registry negHash rs now i t f a v b cd)"
  by (simp add: CreateRetryable_def created_registry_def Let_def SetByUint64_def WriteBytes_def
      Queue_Put_def)

lemma Create_nil_to:
  "CreateRetryable negHash rs now i t f None v b cd = Inl NilPointerDereference"
  by (simp add: CreateRetryable_def Let_def)

lemma created_slots:
  "GetByUint64 (created_registry negHash rs now i t f a v b cd) i numTriesOffset = 0"
  "GetByUint64 (created_registry negHash rs now i t f a v b cd) i timeoutOffset = IntToHash negHash (int64 t)"
  "GetByUint64 (created_registry negHash rs now i t f a v b cd) i fromOffset = BytesToHash (Address_Bytes f)"
  "GetByUint64 (created_registry negHash rs now i t f a v b cd) i toOffset = BytesToHash (Address_Bytes a)"
  "GetByUint64 (created_registry negHash rs now i t f a v b cd) i callvalueOffset = BigToHash v"
  "GetByUint64 (created_registry negHash rs now i t f a v b cd) i beneficiaryOffset = BytesToHash (Address_Bytes b)"
  "GetBytes (created_registry negHash rs now i t f a v b cd) i = (case cd of None \<Rightarrow> [] | Some d \<Rightarrow> d)"
  by (simp_all add: GetByUint64_def GetBytes_def created_registry_def offsets)

lemma Address_roundtrip: "BytesToAddress (Hash_Bytes (BytesToHash (Address_Bytes a))) = a"
proof -
  have "unat a < 2 ^ 160" using unsigned_less [of a] by simp
  then have "unat a < 2 ^ 256" by (rule less_le_trans) simp
  moreover have "unat (word_of_nat (unat a) :: Hash) = unat a mod 2 ^ LENGTH(256)"
    by (rule unat_of_nat)
  ultimately have "unat (word_of_nat (unat a) :: Hash) = unat a"
    by (simp only: mod_less len_bit0 len_num1 mult_1_right) simp
  then have "be_val (Hash_Bytes (BytesToHash (Address_Bytes a))) = unat a"
    by (simp only: BytesToHash_def be_val_Address_Bytes be_val_Hash_Bytes)
  then show ?thesis by (simp add: BytesToAddress_def)
qed

lemma Callvalue_roundtrip: "0 \<le> v \<Longrightarrow> v < 2 ^ 256 \<Longrightarrow> Hash_Big (BigToHash v) = v"
  by (simp add: Hash_Big_def BigToHash_def uint_word_of_int)

lemma Timeout_roundtrip:
  "unat t < 2 ^ 63 \<Longrightarrow> Big_Uint64 (Hash_Big (IntToHash negHash (int64 t))) = t"
  by (simp only: IntToHash_nonneg int64_small_nonneg Uint64_Big_ucast)

lemma IntToHash_nonzero:
  "unat t < 2 ^ 63 \<Longrightarrow> t \<noteq> 0 \<Longrightarrow> IntToHash negHash (int64 t) \<noteq> 0"
  by (simp only: IntToHash_nonneg int64_small_nonneg ucast_up_zero_iff not_False_eq_True)

lemma readers_lazy:
  "fst (NumTries rs (lazyRetryable i)) = Big_Uint64 (Hash_Big (GetByUint64 rs i numTriesOffset))"
  "fst (Timeout rs (lazyRetryable i)) = Big_Uint64 (Hash_Big (GetByUint64 rs i timeoutOffset))"
  "fst (From rs (lazyRetryable i)) = BytesToAddress (Hash_Bytes (GetByUint64 rs i fromOffset))"
  "fst (To rs (lazyRetryable i)) = Some (BytesToAddress (Hash_Bytes (GetByUint64 rs i toOffset)))"
  "fst (Callvalue rs (lazyRetryable i)) = Hash_Big (GetByUint64 rs i callvalueOffset)"
  "fst (Beneficiary rs (lazyRetryable i)) = BytesToAddress (Hash_Bytes (GetByUint64 rs i beneficiaryOffset))"
  "fst (Calldata rs (lazyRetryable i)) = GetBytes rs i"
  by (simp_all add: NumTries_def Timeout_def From_def To_def Callvalue_def Beneficiary_def
      Calldata_def lazyRetryable_def Let_def)

lemma readers_cached:
  "r_timeout r = Some t \<Longrightarrow> fst (Timeout rs r) = t"
  "r_from r = Some f \<Longrightarrow> fst (From rs r) = f"
  "r_to r = Some a \<Longrightarrow> fst (To rs r) = Some a"
  "r_callvalue r = Some v \<Longrightarrow> fst (Callvalue rs r) = v"
  "r_beneficiary r = Some b \<Longrightarrow> fst (Beneficiary rs r) = b"
  "fst (Calldata rs r) = (case r_calldata r of None \<Rightarrow> GetBytes rs (r_id r) | Some d \<Rightarrow> d)"
  by (simp_all add: Timeout_def From_def To_def Callvalue_def Beneficiary_def
      Calldata_def Let_def split: option.splits)

lemma To_never_nil: "fst (To rs r) \<noteq> None"
  by (simp add: To_def Let_def split: option.splits)

lemma Equals_created:
  assumes "t \<noteq> 0" and "unat t < 2 ^ 63" and "0 \<le> v" and "v < 2 ^ 256"
  shows "Equals (created_registry negHash rs now i t f a v b cd)
      \<lparr>r_id = i, r_numTries = Some 0, r_timeout = Some t, r_from = Some f, r_to = Some a,
       r_callvalue = Some v, r_beneficiary = Some b, r_calldata = cd\<rparr>
      (lazyRetryable i)"
proof -
  have "r_id (lazyRetryable i) = i" and "r_calldata (lazyRetryable i) = None"
    by (simp_all add: lazyRetryable_def)
  with assms show ?thesis
    by (simp add: Equals_def readers_lazy readers_cached created_slots Address_roundtrip
        Callvalue_roundtrip Timeout_roundtrip Let_def split: option.splits)
qed


lemma scenario_registry_eq:
  "scenario_registry t =
     created_registry BigToHash InitializeRetryableState 0 scenario_ticket t 0xAA 0xBB 0 0xCC (Some [])"
  by (simp add: scenario_registry_def Create_ok)

lemma scenario_timeout_slot:
  "GetByUint64 (scenario_registry t) scenario_ticket timeoutOffset = IntToHash BigToHash (int64 t)"
  by (simp add: scenario_registry_eq created_slots)

lemma scenario_present:
  "unat t < 2 ^ 63 \<Longrightarrow> t \<noteq> 0 \<Longrightarrow>
   OpenRetryable (scenario_registry t) scenario_ticket now = Some (lazyRetryable scenario_ticket)"
  by (simp add: OpenRetryable_def scenario_timeout_slot IntToHash_nonzero)

lemma scenario_timeout:
  "unat t < 2 ^ 63 \<Longrightarrow> fst (Timeout (scenario_registry t) (lazyRetryable scenario_ticket)) = t"
  by (simp add: readers_lazy scenario_timeout_slot Timeout_roundtrip)

lemma initial_absent: "OpenRetryable InitializeRetryableState i now = None"
  by (simp add: OpenRetryable_def GetByUint64_def InitializeRetryableState_def)

lemma lazy_id: "r_id (lazyRetryable i) = i"
  by (simp add: lazyRetryable_def)

lemma word_add_mod: "(a::uint64) + b = word_of_nat ((unat a + unat b) mod 2 ^ 64)"
proof -
  have "unat (a + b) = (unat a + unat b) mod 2 ^ LENGTH(64)"
    by (simp add: unat_word_ariths)
  then have "word_of_nat (unat (a + b)) = (word_of_nat ((unat a + unat b) mod 2 ^ 64) :: uint64)"
    by simp
  then show ?thesis by simp
qed

section \<open>Create, then open\<close>

text \<open>
  What the code keeps of create-then-open. For every creation input whose \<^verbatim>\<open>to\<close> and \<^verbatim>\<open>callvalue\<close> are
  present, with a timeout that is not zero and below \<open>2^63\<close> and a call value in
  \<open>0 \<le> v < 2^256\<close>, and for every registry, timestamp, ticket id, sender, beneficiary and
  calldata: \<open>CreateRetryable\<close> returns a handle, \<open>OpenRetryable\<close> of the id then returns a
  present handle, \<open>Equals\<close> holds between the two handles, and the opened handle reads
  \<open>numTries = 0\<close> and the timeout, sender, destination, call value, beneficiary and
  calldata that were given (a \<^verbatim>\<open>nil\<close> calldata reads back empty).
\<close>

theorem Create_then_Open:
  assumes "timeout \<noteq> 0" and "unat timeout < 2 ^ 63" and "0 \<le> v" and "v < 2 ^ 256"
  shows "\<exists>h rs'.
      CreateRetryable negHash rs now ticketId timeout fromAddr (Some a) (Some v) beneficiary
        calldata = Inr (h, rs')
    \<and> OpenRetryable rs' ticketId now' = Some (lazyRetryable ticketId)
    \<and> Equals rs' h (lazyRetryable ticketId)
    \<and> fst (NumTries rs' (lazyRetryable ticketId)) = 0
    \<and> fst (Timeout rs' (lazyRetryable ticketId)) = timeout
    \<and> fst (From rs' (lazyRetryable ticketId)) = fromAddr
    \<and> fst (To rs' (lazyRetryable ticketId)) = Some a
    \<and> fst (Callvalue rs' (lazyRetryable ticketId)) = v
    \<and> fst (Beneficiary rs' (lazyRetryable ticketId)) = beneficiary
    \<and> fst (Calldata rs' (lazyRetryable ticketId)) = (case calldata of None \<Rightarrow> [] | Some d \<Rightarrow> d)"
proof (intro exI conjI)
  let ?rs = "created_registry negHash rs now ticketId timeout fromAddr a v beneficiary calldata"
  show "CreateRetryable negHash rs now ticketId timeout fromAddr (Some a) (Some v) beneficiary
        calldata = Inr (\<lparr>r_id = ticketId, r_numTries = Some 0, r_timeout = Some timeout,
          r_from = Some fromAddr, r_to = Some a, r_callvalue = Some v,
          r_beneficiary = Some beneficiary, r_calldata = calldata\<rparr>, ?rs)"
    by (rule Create_ok)
  show "OpenRetryable ?rs ticketId now' = Some (lazyRetryable ticketId)"
    using assms(1,2) by (simp add: OpenRetryable_def created_slots IntToHash_nonzero)
  show "Equals ?rs \<lparr>r_id = ticketId, r_numTries = Some 0, r_timeout = Some timeout,
          r_from = Some fromAddr, r_to = Some a, r_callvalue = Some v,
          r_beneficiary = Some beneficiary, r_calldata = calldata\<rparr> (lazyRetryable ticketId)"
    using assms by (rule Equals_created)
  show "fst (NumTries ?rs (lazyRetryable ticketId)) = 0"
    by (simp add: readers_lazy created_slots Big_Uint64_def Hash_Big_def)
  show "fst (Timeout ?rs (lazyRetryable ticketId)) = timeout"
    using assms(2) by (simp add: readers_lazy created_slots Timeout_roundtrip)
  show "fst (From ?rs (lazyRetryable ticketId)) = fromAddr"
    by (simp add: readers_lazy created_slots Address_roundtrip)
  show "fst (To ?rs (lazyRetryable ticketId)) = Some a"
    by (simp add: readers_lazy created_slots Address_roundtrip)
  show "fst (Callvalue ?rs (lazyRetryable ticketId)) = v"
    using assms(3,4) by (simp add: readers_lazy created_slots Callvalue_roundtrip)
  show "fst (Beneficiary ?rs (lazyRetryable ticketId)) = beneficiary"
    by (simp add: readers_lazy created_slots Address_roundtrip)
  show "fst (Calldata ?rs (lazyRetryable ticketId)) = (case calldata of None \<Rightarrow> [] | Some d \<Rightarrow> d)"
    by (simp add: readers_lazy created_slots)
qed

theorem Create_then_Open_witness:
  "\<exists>h rs'.
      CreateRetryable BigToHash InitializeRetryableState 0
        0x1111111111111111111111111111111111111111111111111111111111111111 1000 0xAA
        (Some 0xBB) (Some 0) 0xCC (Some [0xAA, 0xBB, 0xCC]) = Inr (h, rs')
    \<and> OpenRetryable rs' 0x1111111111111111111111111111111111111111111111111111111111111111 5
        = Some (lazyRetryable 0x1111111111111111111111111111111111111111111111111111111111111111)
    \<and> Equals rs' h (lazyRetryable 0x1111111111111111111111111111111111111111111111111111111111111111)
    \<and> fst (NumTries rs' (lazyRetryable 0x1111111111111111111111111111111111111111111111111111111111111111)) = 0
    \<and> fst (Timeout rs' (lazyRetryable 0x1111111111111111111111111111111111111111111111111111111111111111)) = 1000
    \<and> fst (From rs' (lazyRetryable 0x1111111111111111111111111111111111111111111111111111111111111111)) = 0xAA
    \<and> fst (To rs' (lazyRetryable 0x1111111111111111111111111111111111111111111111111111111111111111)) = Some 0xBB
    \<and> fst (Callvalue rs' (lazyRetryable 0x1111111111111111111111111111111111111111111111111111111111111111)) = 0
    \<and> fst (Beneficiary rs' (lazyRetryable 0x1111111111111111111111111111111111111111111111111111111111111111)) = 0xCC
    \<and> fst (Calldata rs' (lazyRetryable 0x1111111111111111111111111111111111111111111111111111111111111111))
        = [0xAA, 0xBB, 0xCC]"
proof -
  have a: "(1000::uint64) \<noteq> 0" by simp
  have b: "unat (1000::uint64) < 2 ^ 63" by simp
  have c: "(0::int) \<le> 0" by simp
  have d: "(0::int) < 2 ^ 256" by simp
  show ?thesis
    using Create_then_Open [OF a b c d, of BigToHash InitializeRetryableState 0
        "0x1111111111111111111111111111111111111111111111111111111111111111" "0xAA" "0xBB" "0xCC"
        "Some [0xAA, 0xBB, 0xCC]" 5]
    by simp
qed

text \<open>
  The slot of the call value keeps the low 256 bits: with the call value \<open>2^256\<close> the
  created handle and the opened one are not \<open>Equals\<close>.
\<close>

lemma Equals_callvalue_cropped:
  "\<not> Equals
        (created_registry BigToHash InitializeRetryableState 0 scenario_ticket 1000 0xAA 0xBB
           (2 ^ 256) 0xCC (Some []))
        \<lparr>r_id = scenario_ticket,
         r_numTries = Some 0, r_timeout = Some 1000, r_from = Some 0xAA, r_to = Some 0xBB,
         r_callvalue = Some (2 ^ 256), r_beneficiary = Some 0xCC, r_calldata = Some []\<rparr>
        (lazyRetryable scenario_ticket)"
proof -
  have "Hash_Big (BigToHash (2 ^ 256)) = 0"
    by (simp add: Hash_Big_def BigToHash_def)
  then show ?thesis
    by (simp add: Equals_def readers_lazy readers_cached created_slots Address_roundtrip
        Timeout_roundtrip Let_def)
qed

text \<open>
  Claim C1 says that creation with \<^verbatim>\<open>to = nil\<close> returns a handle, that \<open>OpenRetryable\<close>
  then returns a present handle equal to it, and that \<^verbatim>\<open>nil\<close> is read back as \<^verbatim>\<open>nil\<close>.
  The code does not do it. On the input of the spec's first scenario (id \<open>0x11\<dots>11\<close>,
  timeout 1000, call value 0, empty calldata, \<^verbatim>\<open>to = nil\<close>) \<open>CreateRetryable\<close> returns no
  handle: it panics in \<^verbatim>\<open>to.Bytes()\<close>. And no reader gives \<^verbatim>\<open>nil\<close> back: on a handle
  whose \<^verbatim>\<open>to\<close> is not cached, over storage whose \<^verbatim>\<open>to\<close> slot is zero, \<open>To\<close> returns a
  pointer to the zero address. The struct declares \<^verbatim>\<open>to\<close> "potentially nil" and
  \<open>Equals\<close> has a branch for each \<^verbatim>\<open>nil\<close> side.
\<close>

theorem CreateRetryable_nil_to_panics:
  "CreateRetryable BigToHash InitializeRetryableState 0 scenario_ticket 1000 0xAA
      None (Some 0) 0xCC (Some []) = Inl NilPointerDereference
   \<and> OpenRetryable InitializeRetryableState scenario_ticket 0 = None
   \<and> fst (To InitializeRetryableState (lazyRetryable scenario_ticket)) = Some 0"
proof (intro conjI)
  show "CreateRetryable BigToHash InitializeRetryableState 0 scenario_ticket 1000 0xAA
      None (Some 0) 0xCC (Some []) = Inl NilPointerDereference"
    by (rule Create_nil_to)
  show "OpenRetryable InitializeRetryableState scenario_ticket 0 = None"
    by (rule initial_absent)
  have "BytesToAddress (Hash_Bytes 0) = 0"
    by (simp only: BytesToAddress_def be_val_Hash_Bytes) simp
  then show "fst (To InitializeRetryableState (lazyRetryable scenario_ticket)) = Some 0"
    by (simp add: readers_lazy GetByUint64_def InitializeRetryableState_def)
qed

section \<open>Keepalive\<close>

text \<open>
  What the code keeps of the keep-alive cases. \<open>Keepalive\<close> returns false and leaves the registry unchanged when
  \<open>OpenRetryable\<close> finds the ticket absent, and when the timeout read from the opened handle
  is strictly greater than \<open>limitBeforeAdd\<close>. Otherwise it returns true and the registry is
  the one \<open>SetTimeout\<close> leaves for the sum of the timeout and \<open>timeToAdd\<close> (Go's
  \<^verbatim>\<open>uint64\<close> addition); a handle opened afterwards reads that sum back whenever the sum
  is below \<open>2^63\<close>, that is, whenever \<^verbatim>\<open>int64\<close> of it is not negative.
\<close>

theorem Keepalive_cases:
  "(OpenRetryable rs ticketId now = None \<longrightarrow>
      Keepalive negHash rs ticketId now limitBeforeAdd timeToAdd = (False, rs))
   \<and> (OpenRetryable rs ticketId now = Some r \<and> limitBeforeAdd < fst (Timeout rs r) \<longrightarrow>
      Keepalive negHash rs ticketId now limitBeforeAdd timeToAdd = (False, rs))
   \<and> (OpenRetryable rs ticketId now = Some r \<and> fst (Timeout rs r) \<le> limitBeforeAdd \<longrightarrow>
      Keepalive negHash rs ticketId now limitBeforeAdd timeToAdd =
        (True, snd (SetTimeout negHash rs r (fst (Timeout rs r) + timeToAdd)))
      \<and> (unat (fst (Timeout rs r) + timeToAdd) < 2 ^ 63 \<longrightarrow>
           fst (Timeout (snd (Keepalive negHash rs ticketId now limitBeforeAdd timeToAdd))
                  (lazyRetryable ticketId)) = fst (Timeout rs r) + timeToAdd))"
proof (intro conjI impI)
  assume "OpenRetryable rs ticketId now = None"
  then show "Keepalive negHash rs ticketId now limitBeforeAdd timeToAdd = (False, rs)"
    by (rule Keepalive_absent)
next
  assume "OpenRetryable rs ticketId now = Some r \<and> limitBeforeAdd < fst (Timeout rs r)"
  then show "Keepalive negHash rs ticketId now limitBeforeAdd timeToAdd = (False, rs)"
    by (simp add: Keepalive_early)
next
  assume a: "OpenRetryable rs ticketId now = Some r \<and> fst (Timeout rs r) \<le> limitBeforeAdd"
  then have "r_id r = ticketId" by (auto simp: lazyRetryable_def dest: Open_Some)
  with a show "Keepalive negHash rs ticketId now limitBeforeAdd timeToAdd =
      (True, snd (SetTimeout negHash rs r (fst (Timeout rs r) + timeToAdd)))"
    by (simp add: Keepalive_extend SetTimeout_eq)
next
  assume a: "OpenRetryable rs ticketId now = Some r \<and> fst (Timeout rs r) \<le> limitBeforeAdd"
    and b: "unat (fst (Timeout rs r) + timeToAdd) < 2 ^ 63"
  from b have "IntToHash negHash (int64 (fst (Timeout rs r) + timeToAdd)) =
      ucast (fst (Timeout rs r) + timeToAdd)"
    by (simp only: IntToHash_nonneg int64_small_nonneg)
  with a show "fst (Timeout (snd (Keepalive negHash rs ticketId now limitBeforeAdd timeToAdd))
      (lazyRetryable ticketId)) = fst (Timeout rs r) + timeToAdd"
    by (simp add: Keepalive_extend Timeout_lazy Get_Set Uint64_Big_ucast)
qed

theorem Keepalive_cases_witness:
  "Keepalive BigToHash InitializeRetryableState scenario_ticket 500 900 300 =
     (False, InitializeRetryableState)
   \<and> Keepalive BigToHash (scenario_registry 1000) scenario_ticket 500 900 300 =
     (False, scenario_registry 1000)
   \<and> fst (Keepalive BigToHash (scenario_registry 800) scenario_ticket 500 900 300) = True
   \<and> fst (Timeout (snd (Keepalive BigToHash (scenario_registry 800) scenario_ticket 500 900 300))
        (lazyRetryable scenario_ticket)) = 1100"
proof -
  have p1: "OpenRetryable (scenario_registry 1000) scenario_ticket 500 =
      Some (lazyRetryable scenario_ticket)"
    by (rule scenario_present) simp_all
  have t1: "fst (Timeout (scenario_registry 1000) (lazyRetryable scenario_ticket)) = 1000"
    by (rule scenario_timeout) simp
  have p2: "OpenRetryable (scenario_registry 800) scenario_ticket 500 =
      Some (lazyRetryable scenario_ticket)"
    by (rule scenario_present) simp_all
  have t2: "fst (Timeout (scenario_registry 800) (lazyRetryable scenario_ticket)) = 800"
    by (rule scenario_timeout) simp
  from Keepalive_cases [where rs = InitializeRetryableState and ticketId = scenario_ticket
      and now = 500 and negHash = BigToHash and limitBeforeAdd = 900 and timeToAdd = 300
      and r = "lazyRetryable scenario_ticket"]
  have a: "Keepalive BigToHash InitializeRetryableState scenario_ticket 500 900 300 =
      (False, InitializeRetryableState)"
    by (simp add: initial_absent)
  from Keepalive_cases [where rs = "scenario_registry 1000" and ticketId = scenario_ticket
      and now = 500 and negHash = BigToHash and limitBeforeAdd = 900 and timeToAdd = 300
      and r = "lazyRetryable scenario_ticket"]
  have b: "Keepalive BigToHash (scenario_registry 1000) scenario_ticket 500 900 300 =
      (False, scenario_registry 1000)"
    by (simp add: p1 t1)
  from Keepalive_cases [where rs = "scenario_registry 800" and ticketId = scenario_ticket
      and now = 500 and negHash = BigToHash and limitBeforeAdd = 900 and timeToAdd = 300
      and r = "lazyRetryable scenario_ticket"]
  have c: "fst (Keepalive BigToHash (scenario_registry 800) scenario_ticket 500 900 300) = True
    \<and> fst (Timeout (snd (Keepalive BigToHash (scenario_registry 800) scenario_ticket 500 900 300))
        (lazyRetryable scenario_ticket)) = 1100"
    by (auto simp: p2 t2)
  from a b c show ?thesis by (simp only: simp_thms)
qed

text \<open>
  \<^verbatim>\<open>SetTimeout\<close> writes the slot as \<^verbatim>\<open>util.IntToHash(int64(timeout))\<close>, and \<open>Timeout\<close>
  reads it as \<^verbatim>\<open>.Big().Uint64()\<close>; the sibling \<^verbatim>\<open>SetNumTries\<close> writes its \<^verbatim>\<open>uint64\<close>
  with \<^verbatim>\<open>SetUint64ByUint64\<close>. For a timeout of \<open>2^63\<close> or more the conversion to
  \<^verbatim>\<open>int64\<close> is negative, whatever \<open>negHash\<close> is: with the timeout 1000 and
  \<open>timeToAdd = 2^63\<close>, \<open>Keepalive\<close> returns true and the slot is what \<^verbatim>\<open>IntToHash\<close> makes
  of \<open>- (2^63 - 1000)\<close>.
\<close>

lemma Keepalive_hands_negative:
  "fst (Keepalive negHash (scenario_registry 1000) scenario_ticket 500 1000
      9223372036854775808) = True
   \<and> GetByUint64 (snd (Keepalive negHash (scenario_registry 1000) scenario_ticket 500 1000
      9223372036854775808)) scenario_ticket timeoutOffset = negHash (- 9223372036854774808)"
proof -
  have p: "OpenRetryable (scenario_registry 1000) scenario_ticket 500 =
      Some (lazyRetryable scenario_ticket)"
    by (rule scenario_present) simp_all
  have t: "fst (Timeout (scenario_registry 1000) (lazyRetryable scenario_ticket)) = 1000"
    by (rule scenario_timeout) simp
  have i: "int64 9223372036854776808 = - 9223372036854774808"
    by (simp add: int64_def)
  have "fst (Timeout (scenario_registry 1000) (lazyRetryable scenario_ticket)) \<le> 1000"
    by (simp add: t)
  from Keepalive_extend [OF p this, of negHash 9223372036854775808] show ?thesis
    by (simp add: t i IntToHash_def Get_Set)
qed

text \<open>
  Claim C3 says that \<open>Keepalive\<close>, when the timeout is at most \<open>limitBeforeAdd\<close>, sets the
  stored timeout to the timeout plus \<open>timeToAdd\<close>. The code does not, once the sum is
  \<open>2^63\<close> or more. With \<^verbatim>\<open>util.IntToHash\<close> being go-ethereum's \<^verbatim>\<open>BigToHash\<close> of the
  signed value: the retryable of the scenario is present with timeout 1000, \<open>Keepalive\<close>
  with limit 1000 and \<open>timeToAdd = 2^63\<close> returns true, and the stored timeout a handle
  opened afterwards reads is \<open>2^63 - 1000\<close>, not \<open>1000 + 2^63\<close>.
\<close>

theorem Keepalive_int64_failing_input:
  "OpenRetryable (scenario_registry 1000) scenario_ticket 500 =
     Some (lazyRetryable scenario_ticket)
   \<and> fst (Timeout (scenario_registry 1000) (lazyRetryable scenario_ticket)) = 1000
   \<and> fst (Keepalive BigToHash (scenario_registry 1000) scenario_ticket 500 1000
        9223372036854775808) = True
   \<and> fst (Timeout (snd (Keepalive BigToHash (scenario_registry 1000) scenario_ticket 500 1000
        9223372036854775808)) (lazyRetryable scenario_ticket)) = 9223372036854774808
   \<and> (1000 + 9223372036854775808 :: uint64) = 9223372036854776808"
proof -
  have p: "OpenRetryable (scenario_registry 1000) scenario_ticket 500 =
      Some (lazyRetryable scenario_ticket)"
    by (rule scenario_present) simp_all
  have t: "fst (Timeout (scenario_registry 1000) (lazyRetryable scenario_ticket)) = 1000"
    by (rule scenario_timeout) simp
  have r: "Big_Uint64 (Hash_Big (BigToHash (- 9223372036854774808))) = 9223372036854774808"
    by (simp add: Big_Uint64_def Hash_Big_def BigToHash_def)
  from Keepalive_hands_negative [of BigToHash] r
  have k: "fst (Keepalive BigToHash (scenario_registry 1000) scenario_ticket 500 1000
        9223372036854775808) = True
    \<and> fst (Timeout (snd (Keepalive BigToHash (scenario_registry 1000) scenario_ticket 500 1000
        9223372036854775808)) (lazyRetryable scenario_ticket)) = 9223372036854774808"
    by (simp add: readers_lazy)
  have s: "(1000 + 9223372036854775808 :: uint64) = 9223372036854776808" by simp
  from p t k s show ?thesis by (simp only: simp_thms)
qed

section \<open>Setting and reading the timeout\<close>

text \<open>
  Claim C8, as amended. After \<open>SetTimeout\<close> with any 64-bit value \<open>t\<close>, \<open>Timeout\<close> on
  the handle that \<open>SetTimeout\<close> updated returns \<open>t\<close>. When \<open>t\<close> is not zero and below
  \<open>2^63\<close>, \<open>OpenRetryable\<close> of the handle's id returns a present handle and \<open>Timeout\<close> on it
  returns \<open>t\<close>. When \<open>t\<close> is zero, \<open>OpenRetryable\<close> returns absent.
\<close>

theorem SetTimeout_then_Timeout:
  "fst (Timeout (snd (SetTimeout negHash rs retryable t)) (fst (SetTimeout negHash rs retryable t))) = t
   \<and> (t \<noteq> 0 \<and> unat t < 2 ^ 63 \<longrightarrow>
        OpenRetryable (snd (SetTimeout negHash rs retryable t)) (r_id retryable) now =
          Some (lazyRetryable (r_id retryable))
      \<and> fst (Timeout (snd (SetTimeout negHash rs retryable t)) (lazyRetryable (r_id retryable))) = t)
   \<and> (t = 0 \<longrightarrow>
        OpenRetryable (snd (SetTimeout negHash rs retryable t)) (r_id retryable) now = None)"
proof (intro conjI impI)
  show "fst (Timeout (snd (SetTimeout negHash rs retryable t))
      (fst (SetTimeout negHash rs retryable t))) = t"
    by (simp add: SetTimeout_eq readers_cached)
next
  assume a: "t \<noteq> 0 \<and> unat t < 2 ^ 63"
  then show "OpenRetryable (snd (SetTimeout negHash rs retryable t)) (r_id retryable) now =
      Some (lazyRetryable (r_id retryable))"
    by (simp add: SetTimeout_eq OpenRetryable_def Get_Set IntToHash_nonzero)
  from a show "fst (Timeout (snd (SetTimeout negHash rs retryable t))
      (lazyRetryable (r_id retryable))) = t"
    by (simp add: SetTimeout_eq readers_lazy Get_Set Timeout_roundtrip)
next
  assume "t = 0"
  then show "OpenRetryable (snd (SetTimeout negHash rs retryable t)) (r_id retryable) now = None"
    by (simp add: SetTimeout_eq OpenRetryable_def Get_Set IntToHash_zero)
qed

theorem SetTimeout_then_Timeout_witness:
  "fst (Timeout (snd (SetTimeout BigToHash (scenario_registry 1000) (lazyRetryable scenario_ticket) 2000))
      (fst (SetTimeout BigToHash (scenario_registry 1000) (lazyRetryable scenario_ticket) 2000))) = 2000
   \<and> OpenRetryable
        (snd (SetTimeout BigToHash (scenario_registry 1000) (lazyRetryable scenario_ticket) 2000))
        scenario_ticket 7 = Some (lazyRetryable scenario_ticket)
   \<and> fst (Timeout
        (snd (SetTimeout BigToHash (scenario_registry 1000) (lazyRetryable scenario_ticket) 2000))
        (lazyRetryable scenario_ticket)) = 2000
   \<and> OpenRetryable
        (snd (SetTimeout BigToHash (scenario_registry 1000) (lazyRetryable scenario_ticket) 0))
        scenario_ticket 7 = None"
  using SetTimeout_then_Timeout [where negHash = BigToHash and rs = "scenario_registry 1000"
      and retryable = "lazyRetryable scenario_ticket" and t = 2000 and now = 7]
    SetTimeout_then_Timeout [where negHash = BigToHash and rs = "scenario_registry 1000"
      and retryable = "lazyRetryable scenario_ticket" and t = 0 and now = 7]
  by (simp add: lazy_id)

text \<open>
  Claim C8 as stated fails at \<open>t = 0\<close>: the retryable of the scenario is present, and after
  \<open>SetTimeout\<close> with zero on its handle \<open>OpenRetryable\<close> returns absent, so there is no
  opened handle to read the timeout from.
\<close>

theorem SetTimeout_zero_counterexample:
  "OpenRetryable (scenario_registry 1000) scenario_ticket 7 = Some (lazyRetryable scenario_ticket)
   \<and> OpenRetryable
        (snd (SetTimeout BigToHash (scenario_registry 1000) (lazyRetryable scenario_ticket) 0))
        scenario_ticket 7 = None"
proof
  show "OpenRetryable (scenario_registry 1000) scenario_ticket 7 =
      Some (lazyRetryable scenario_ticket)"
    by (rule scenario_present) simp_all
  show "OpenRetryable
        (snd (SetTimeout BigToHash (scenario_registry 1000) (lazyRetryable scenario_ticket) 0))
        scenario_ticket 7 = None"
    by (simp add: SetTimeout_eq OpenRetryable_def Get_Set IntToHash_zero lazy_id)
qed

section \<open>Keepalive adds modulo \<open>2^64\<close>\<close>

text \<open>
  What the code keeps of the modular addition. For a present retryable whose timeout \<open>t\<close>, as \<open>Timeout\<close> reads it, is at most
  \<open>limitBeforeAdd\<close>, \<open>Keepalive\<close> returns true and leaves the registry that \<open>SetTimeout\<close>
  leaves for \<open>(t + timeToAdd) mod 2^64\<close>. When that is zero, the timeout slot becomes the
  zero word and \<open>OpenRetryable\<close> returns absent afterwards, although \<open>Keepalive\<close> returned
  true; when it is below \<open>2^63\<close>, a handle opened afterwards reads it back.
\<close>

theorem Keepalive_addition_wraps:
  "OpenRetryable rs ticketId now = Some r \<and> fst (Timeout rs r) \<le> limitBeforeAdd \<longrightarrow>
     fst (Keepalive negHash rs ticketId now limitBeforeAdd timeToAdd) = True
   \<and> snd (Keepalive negHash rs ticketId now limitBeforeAdd timeToAdd) =
       snd (SetTimeout negHash rs r
              (word_of_nat ((unat (fst (Timeout rs r)) + unat timeToAdd) mod 2 ^ 64)))
   \<and> ((unat (fst (Timeout rs r)) + unat timeToAdd) mod 2 ^ 64 = 0 \<longrightarrow>
        GetByUint64 (snd (Keepalive negHash rs ticketId now limitBeforeAdd timeToAdd))
          ticketId timeoutOffset = 0
      \<and> OpenRetryable (snd (Keepalive negHash rs ticketId now limitBeforeAdd timeToAdd))
          ticketId now' = None)
   \<and> ((unat (fst (Timeout rs r)) + unat timeToAdd) mod 2 ^ 64 < 2 ^ 63 \<longrightarrow>
        fst (Timeout (snd (Keepalive negHash rs ticketId now limitBeforeAdd timeToAdd))
               (lazyRetryable ticketId)) =
          word_of_nat ((unat (fst (Timeout rs r)) + unat timeToAdd) mod 2 ^ 64))"
proof (intro impI)
  assume a: "OpenRetryable rs ticketId now = Some r \<and> fst (Timeout rs r) \<le> limitBeforeAdd"
  let ?t = "fst (Timeout rs r)"
  let ?s = "word_of_nat ((unat ?t + unat timeToAdd) mod 2 ^ 64) :: uint64"
  let ?K = "Keepalive negHash rs ticketId now limitBeforeAdd timeToAdd"
  have s: "?t + timeToAdd = ?s" by (rule word_add_mod)
  from a have id: "r_id r = ticketId" by (auto simp: lazy_id dest: Open_Some)
  from a have K: "?K = (True, SetByUint64 rs ticketId timeoutOffset (IntToHash negHash (int64 ?s)))"
    by (simp only: Keepalive_extend s)
  have us: "unat ?s = (unat ?t + unat timeToAdd) mod 2 ^ 64"
    by (simp add: unat_of_nat)
  have c1: "fst ?K = True" by (simp add: K)
  have c2: "snd ?K = snd (SetTimeout negHash rs r ?s)"
    by (simp add: K SetTimeout_eq id)
  have c3: "GetByUint64 (snd ?K) ticketId timeoutOffset = 0 \<and> OpenRetryable (snd ?K) ticketId now' = None"
    if z: "(unat ?t + unat timeToAdd) mod 2 ^ 64 = 0"
  proof -
    from z have "?s = 0" by simp
    then have "IntToHash negHash (int64 ?s) = 0" by (simp only: IntToHash_zero)
    then show ?thesis by (simp add: K OpenRetryable_def Get_Set)
  qed
  have c4: "fst (Timeout (snd ?K) (lazyRetryable ticketId)) = ?s"
    if l: "(unat ?t + unat timeToAdd) mod 2 ^ 64 < 2 ^ 63"
  proof -
    from l us have "unat ?s < 2 ^ 63" by simp
    then have "Big_Uint64 (Hash_Big (IntToHash negHash (int64 ?s))) = ?s"
      by (rule Timeout_roundtrip)
    then show ?thesis by (simp add: K readers_lazy Get_Set)
  qed
  from c1 c2 c3 c4 show "fst ?K = True \<and> snd ?K = snd (SetTimeout negHash rs r ?s)
    \<and> ((unat ?t + unat timeToAdd) mod 2 ^ 64 = 0 \<longrightarrow>
        GetByUint64 (snd ?K) ticketId timeoutOffset = 0 \<and> OpenRetryable (snd ?K) ticketId now' = None)
    \<and> ((unat ?t + unat timeToAdd) mod 2 ^ 64 < 2 ^ 63 \<longrightarrow>
        fst (Timeout (snd ?K) (lazyRetryable ticketId)) = ?s)"
    by blast
qed

theorem Keepalive_addition_wraps_witness:
  "OpenRetryable (scenario_registry 1) scenario_ticket 500 = Some (lazyRetryable scenario_ticket)
   \<and> fst (Keepalive BigToHash (scenario_registry 1) scenario_ticket 500 1 18446744073709551615) = True
   \<and> GetByUint64 (snd (Keepalive BigToHash (scenario_registry 1) scenario_ticket 500 1
        18446744073709551615)) scenario_ticket timeoutOffset = 0
   \<and> OpenRetryable (snd (Keepalive BigToHash (scenario_registry 1) scenario_ticket 500 1
        18446744073709551615)) scenario_ticket 501 = None
   \<and> fst (Keepalive BigToHash (scenario_registry 800) scenario_ticket 500 900 300) = True
   \<and> fst (Timeout (snd (Keepalive BigToHash (scenario_registry 800) scenario_ticket 500 900 300))
        (lazyRetryable scenario_ticket)) = 1100"
proof -
  have p1: "OpenRetryable (scenario_registry 1) scenario_ticket 500 =
      Some (lazyRetryable scenario_ticket)"
    by (rule scenario_present) simp_all
  have t1: "fst (Timeout (scenario_registry 1) (lazyRetryable scenario_ticket)) = 1"
    by (rule scenario_timeout) simp
  have p2: "OpenRetryable (scenario_registry 800) scenario_ticket 500 =
      Some (lazyRetryable scenario_ticket)"
    by (rule scenario_present) simp_all
  have t2: "fst (Timeout (scenario_registry 800) (lazyRetryable scenario_ticket)) = 800"
    by (rule scenario_timeout) simp
  from Keepalive_addition_wraps [where rs = "scenario_registry 1" and ticketId = scenario_ticket
      and now = 500 and negHash = BigToHash and limitBeforeAdd = 1
      and timeToAdd = 18446744073709551615 and r = "lazyRetryable scenario_ticket" and now' = 501]
  have a: "fst (Keepalive BigToHash (scenario_registry 1) scenario_ticket 500 1 18446744073709551615) = True
   \<and> GetByUint64 (snd (Keepalive BigToHash (scenario_registry 1) scenario_ticket 500 1
        18446744073709551615)) scenario_ticket timeoutOffset = 0
   \<and> OpenRetryable (snd (Keepalive BigToHash (scenario_registry 1) scenario_ticket 500 1
        18446744073709551615)) scenario_ticket 501 = None"
    by (auto simp: p1 t1)
  from Keepalive_addition_wraps [where rs = "scenario_registry 800" and ticketId = scenario_ticket
      and now = 500 and negHash = BigToHash and limitBeforeAdd = 900
      and timeToAdd = 300 and r = "lazyRetryable scenario_ticket" and now' = 501]
  have b: "fst (Keepalive BigToHash (scenario_registry 800) scenario_ticket 500 900 300) = True
   \<and> fst (Timeout (snd (Keepalive BigToHash (scenario_registry 800) scenario_ticket 500 900 300))
        (lazyRetryable scenario_ticket)) = 1100"
    by (auto simp: p2 t2)
  from p1 a b show ?thesis by (simp only: simp_thms)
qed

text \<open>
  Claim C10 says that \<open>Keepalive\<close> stores \<open>(t + timeToAdd) mod 2^64\<close> as the new timeout.
  The code does not, when that is \<open>2^63\<close> or more (the defect of Claim C3: the slot is
  written from \<^verbatim>\<open>int64(timeout)\<close>). With \<^verbatim>\<open>util.IntToHash\<close> being go-ethereum's
  \<^verbatim>\<open>BigToHash\<close> of the signed value: for the retryable of the scenario, with timeout 1000,
  and \<open>timeToAdd = 2^64 - 1001\<close>, the sum modulo \<open>2^64\<close> is \<open>2^64 - 1\<close>; \<open>Keepalive\<close> returns
  true, the slot holds 1, and a handle opened afterwards reads the timeout 1.
\<close>

theorem Keepalive_wrapped_sum_failing_input:
  "(unat (1000 :: uint64) + unat (18446744073709550615 :: uint64)) mod 2 ^ 64 =
     18446744073709551615
   \<and> fst (Keepalive BigToHash (scenario_registry 1000) scenario_ticket 500 1000
        18446744073709550615) = True
   \<and> GetByUint64 (snd (Keepalive BigToHash (scenario_registry 1000) scenario_ticket 500 1000
        18446744073709550615)) scenario_ticket timeoutOffset = 1
   \<and> fst (Timeout (snd (Keepalive BigToHash (scenario_registry 1000) scenario_ticket 500 1000
        18446744073709550615)) (lazyRetryable scenario_ticket)) = 1"
proof -
  have p: "OpenRetryable (scenario_registry 1000) scenario_ticket 500 =
      Some (lazyRetryable scenario_ticket)"
    by (rule scenario_present) simp_all
  have t: "fst (Timeout (scenario_registry 1000) (lazyRetryable scenario_ticket)) = 1000"
    by (rule scenario_timeout) simp
  have i: "int64 18446744073709551615 = - 1"
    by (simp add: int64_def)
  have h: "IntToHash BigToHash (- 1) = 1"
    by (simp add: IntToHash_def BigToHash_def)
  have r: "Big_Uint64 (Hash_Big 1) = 1"
    by (simp add: Big_Uint64_def Hash_Big_def)
  have "fst (Timeout (scenario_registry 1000) (lazyRetryable scenario_ticket)) \<le> 1000"
    by (simp add: t)
  from Keepalive_extend [OF p this, of BigToHash 18446744073709550615]
  have k: "Keepalive BigToHash (scenario_registry 1000) scenario_ticket 500 1000
        18446744073709550615 =
      (True, SetByUint64 (scenario_registry 1000) scenario_ticket timeoutOffset 1)"
    by (simp add: t i h)
  have a: "(unat (1000 :: uint64) + unat (18446744073709550615 :: uint64)) mod 2 ^ 64 =
     18446744073709551615"
    by simp
  from a show ?thesis
    by (simp add: k Get_Set readers_lazy r)
qed

section \<open>The reaper\<close>

text \<open>
  Claim C6. \<open>TryToReapOneRetryable\<close> leaves the registry as it is when the timeout queue is
  empty. Otherwise it takes the id at the head of the queue; when \<open>OpenRetryable\<close> finds that
  id present it puts the same id back at the tail, and when it is absent the id is dropped.
  The slots and the stored bytes of every retryable are untouched, the result does not
  depend on the current time (no expiry comparison is made), and the queue loses at most
  one entry: one entry is processed per call.
\<close>

theorem TryToReapOneRetryable_step:
  "TryToReapOneRetryable rs now =
     (case timeoutQueue rs of
        [] \<Rightarrow> rs
      | ticketId # rest \<Rightarrow>
          (case OpenRetryable rs ticketId now of
             Some retryable \<Rightarrow> rs\<lparr>timeoutQueue := rest @ [ticketId]\<rparr>
           | None \<Rightarrow> rs\<lparr>timeoutQueue := rest\<rparr>))
   \<and> retryables (TryToReapOneRetryable rs now) = retryables rs
   \<and> calldataBytes (TryToReapOneRetryable rs now) = calldataBytes rs
   \<and> TryToReapOneRetryable rs now = TryToReapOneRetryable rs now'
   \<and> length (timeoutQueue rs) \<le> Suc (length (timeoutQueue (TryToReapOneRetryable rs now)))
   \<and> length (timeoutQueue (TryToReapOneRetryable rs now)) \<le> length (timeoutQueue rs)"
proof -
  have a: "retryables (TryToReapOneRetryable rs now) = retryables rs"
    by (simp add: TryToReap_eq split: list.splits option.splits)
  have b: "calldataBytes (TryToReapOneRetryable rs now) = calldataBytes rs"
    by (simp add: TryToReap_eq split: list.splits option.splits)
  have c: "TryToReapOneRetryable rs now = TryToReapOneRetryable rs now'"
    by (simp add: TryToReap_eq OpenRetryable_def split: list.splits)
  have d: "length (timeoutQueue rs) \<le> Suc (length (timeoutQueue (TryToReapOneRetryable rs now)))"
    by (simp add: TryToReap_eq split: list.splits option.splits)
  have e: "length (timeoutQueue (TryToReapOneRetryable rs now)) \<le> length (timeoutQueue rs)"
    by (simp add: TryToReap_eq split: list.splits option.splits)
  from TryToReap_eq [of rs now] a b c d e show ?thesis by (simp only: simp_thms)
qed

section \<open>Live retryables are queued\<close>

lemma invariant_initial: "queue_invariant InitializeRetryableState"
  by (simp add: queue_invariant_def GetByUint64_def InitializeRetryableState_def)

lemma invariant_reap: "queue_invariant rs \<Longrightarrow> queue_invariant (TryToReapOneRetryable rs now)"
proof (cases "timeoutQueue rs")
  case Nil
  assume "queue_invariant rs"
  with Nil show ?thesis by (simp add: TryToReap_eq)
next
  case (Cons i rest)
  assume inv: "queue_invariant rs"
  show ?thesis
  proof (cases "OpenRetryable rs i now")
    case None
    then have "GetByUint64 rs i timeoutOffset = 0" by (simp add: Open_None_iff)
    with inv Cons None show ?thesis
      by (auto simp: TryToReap_eq queue_invariant_def Get_queue_update)
  next
    case (Some r)
    with inv Cons show ?thesis
      by (auto simp: TryToReap_eq queue_invariant_def Get_queue_update)
  qed
qed

lemma created_timeout_slot:
  "GetByUint64 (created_registry negHash rs now i t f a v b cd) j timeoutOffset =
     (if j = i then IntToHash negHash (int64 t)
      else GetByUint64 (TryToReapOneRetryable rs now) j timeoutOffset)"
  by (simp add: GetByUint64_def created_registry_def offsets)

lemma created_queue:
  "timeoutQueue (created_registry negHash rs now i t f a v b cd) =
     timeoutQueue (TryToReapOneRetryable rs now) @ [i]"
  by (simp add: created_registry_def)

lemma invariant_create:
  assumes "queue_invariant rs"
    and "CreateRetryable negHash rs now i t f a v b cd = Inr (h, rs')"
  shows "queue_invariant rs'"
proof -
  from assms(2) obtain a' v' where a: "a = Some a'" and v: "v = Some v'"
    by (cases a; cases v) (simp_all add: CreateRetryable_def Let_def)
  from assms(2) have rs': "rs' = created_registry negHash rs now i t f a' v' b cd"
    by (simp add: a v Create_ok)
  from assms(1) have "queue_invariant (TryToReapOneRetryable rs now)" by (rule invariant_reap)
  then show ?thesis
    by (auto simp: rs' queue_invariant_def created_timeout_slot created_queue)
qed

lemma invariant_delete: "queue_invariant rs \<Longrightarrow> queue_invariant (snd (DeleteRetryable rs i))"
  by (auto simp: queue_invariant_def DeleteRetryable_def Let_def Get_Set Get_DeleteBytes
      queue_Set queue_DeleteBytes offsets split: if_splits)

lemma invariant_keepalive:
  assumes "queue_invariant rs"
  shows "queue_invariant (snd (Keepalive negHash rs i now lim add))"
proof (cases "OpenRetryable rs i now")
  case None
  with assms show ?thesis by (simp add: Keepalive_absent)
next
  case (Some r)
  then have live: "GetByUint64 rs i timeoutOffset \<noteq> 0" by (simp add: Open_Some)
  show ?thesis
  proof (cases "lim < fst (Timeout rs r)")
    case True
    with Some assms show ?thesis by (simp add: Keepalive_early)
  next
    case False
    then have "fst (Timeout rs r) \<le> lim" by simp
    with Some have "snd (Keepalive negHash rs i now lim add) =
        SetByUint64 rs i timeoutOffset (IntToHash negHash (int64 (fst (Timeout rs r) + add)))"
      by (simp add: Keepalive_extend)
    with assms live show ?thesis
      by (auto simp: queue_invariant_def Get_Set queue_Set)
  qed
qed

lemma invariant_increment:
  "queue_invariant rs \<Longrightarrow> queue_invariant (snd (snd (IncrementNumTries rs h)))"
  by (auto simp: queue_invariant_def IncrementNumTries_def SetNumTries_def SetUint64ByUint64_def
      Let_def Get_Set queue_Set offsets split: prod.splits)

lemma invariant_step:
  assumes "queue_invariant rs" and "apply_operation negHash op rs = Inr rs'"
  shows "queue_invariant rs'"
proof (cases op)
  case (OpCreateRetryable now i t f a v b cd)
  with assms(2) obtain h where "CreateRetryable negHash rs now i t f a v b cd = Inr (h, rs')"
    by (auto split: sum.splits)
  with assms(1) show ?thesis by (rule invariant_create)
next
  case (OpOpenRetryable i now)
  with assms show ?thesis by (auto split: option.splits)
next
  case (OpDeleteRetryable i)
  with assms(2) have "rs' = snd (DeleteRetryable rs i)" by (auto split: prod.splits)
  with assms(1) show ?thesis by (simp add: invariant_delete)
next
  case (OpKeepalive i now lim add)
  with assms(2) have "rs' = snd (Keepalive negHash rs i now lim add)" by (auto split: prod.splits)
  with assms(1) show ?thesis by (simp add: invariant_keepalive)
next
  case (OpRetryableSizeBytes i now)
  with assms show ?thesis by simp
next
  case (OpTryToReapOne now)
  with assms show ?thesis by (auto simp: invariant_reap)
next
  case (OpIncrementNumTries h)
  with assms(2) have "rs' = snd (snd (IncrementNumTries rs h))" by (auto split: prod.splits)
  with assms(1) show ?thesis by (simp add: invariant_increment)
qed

lemma invariant_reachable: "reachable negHash rs \<Longrightarrow> queue_invariant rs"
  by (induction rule: reachable.induct) (auto intro: invariant_initial invariant_step)

text \<open>
  Claim C7. The registry after \<^verbatim>\<open>InitializeRetryableState\<close> satisfies the invariant "every
  retryable with a nonzero timeout slot has its ticket id in the timeout queue at least
  once"; each of \<open>CreateRetryable\<close>, \<open>OpenRetryable\<close>, \<open>DeleteRetryable\<close>, \<open>Keepalive\<close>,
  \<open>RetryableSizeBytes\<close>, \<open>TryToReapOneRetryable\<close> and \<open>IncrementNumTries\<close> that returns
  preserves it; hence it holds in every registry reachable by these operations.
\<close>

theorem queue_invariant_holds:
  "queue_invariant InitializeRetryableState
   \<and> (queue_invariant rs \<and> apply_operation negHash op rs = Inr rs' \<longrightarrow> queue_invariant rs')
   \<and> (reachable negHash rs \<longrightarrow> queue_invariant rs)"
  using invariant_initial invariant_step [of rs negHash op rs'] invariant_reachable [of negHash rs]
  by blast

theorem queue_invariant_holds_witness:
  "apply_operation BigToHash
     (OpCreateRetryable 0 scenario_ticket 1000 0xAA (Some 0xBB) (Some 0) 0xCC (Some []))
     InitializeRetryableState = Inr (scenario_registry 1000)
   \<and> reachable BigToHash (scenario_registry 1000)
   \<and> queue_invariant (scenario_registry 1000)
   \<and> GetByUint64 (scenario_registry 1000) scenario_ticket timeoutOffset \<noteq> 0
   \<and> scenario_ticket \<in> set (timeoutQueue (scenario_registry 1000))"
proof -
  have a: "apply_operation BigToHash
     (OpCreateRetryable 0 scenario_ticket 1000 0xAA (Some 0xBB) (Some 0) 0xCC (Some []))
     InitializeRetryableState = Inr (scenario_registry 1000)"
    by (simp add: Create_ok scenario_registry_eq)
  have r: "reachable BigToHash (scenario_registry 1000)"
    by (rule reachable.step [OF reachable.initial a])
  have i: "queue_invariant (scenario_registry 1000)"
    using queue_invariant_holds [of InitializeRetryableState BigToHash
        "OpCreateRetryable 0 scenario_ticket 1000 0xAA (Some 0xBB) (Some 0) 0xCC (Some [])"
        "scenario_registry 1000"] a
    by blast
  have l: "GetByUint64 (scenario_registry 1000) scenario_ticket timeoutOffset \<noteq> 0"
    by (simp add: scenario_timeout_slot IntToHash_nonzero)
  with i have q: "scenario_ticket \<in> set (timeoutQueue (scenario_registry 1000))"
    by (simp add: queue_invariant_def)
  from a r i l q show ?thesis by (simp only: simp_thms)
qed

section \<open>Facts about the JIT validation host\<close>

lemma ignore_first: "map_of ignoreProveBlocks 4083577 =
  Some \<lparr>Batch = 9178, PosInBatch = 480,
         BlockHash = 0xda2d176f5b585b131e1272efbfe458d4682938263fdeda42982083fb14186a84,
         SendRoot = 0x73e3fd5339538bb97fb2ab3f1affc7971c8ea591c1f324e22cbc5b4d01b7b4ee\<rparr>"
  by (simp add: ignoreProveBlocks_def)

lemma ignore_dom: "fst ` set ignoreProveBlocks =
  {4083577, 4083578, 4083579, 4083580, 4083581, 4083583, 4083584, 4083585, 4083586, 4083587,
   4083588, 4083589, 4083590, 4083591}"
  by (simp add: ignoreProveBlocks_def)

lemma not_ignored_1: "map_of ignoreProveBlocks 1 = None"
  by (simp add: ignoreProveBlocks_def)

lemma passes_skip: "passes (\<lambda>c. (None, c))"
  by (simp add: passes_def)

lemma passes_writeExact: "\<forall>n. conn_Write_err env n = None \<Longrightarrow> passes (writeExact env d)"
  by (simp add: passes_def writeExact_def)

lemma passes_andThen: "passes f \<Longrightarrow> passes g \<Longrightarrow> passes (andThen f g)"
  unfolding passes_def andThen_def
proof
  fix c
  assume f: "\<forall>c. \<exists>c'. f c = (None, c') \<and> unread c' = unread c"
    and g: "\<forall>c. \<exists>c'. g c = (None, c') \<and> unread c' = unread c"
  from f obtain c1 where c1: "f c = (None, c1)" "unread c1 = unread c" by blast
  from g obtain c2 where c2: "g c1 = (None, c2)" "unread c2 = unread c1" by blast
  from c1 c2 show "\<exists>c'. (case f c of (None, c') \<Rightarrow> g c' | (Some err, c') \<Rightarrow> (Some err, c')) = (None, c')
      \<and> unread c' = unread c"
    by simp
qed

lemma passes_writes:
  assumes "\<forall>n. conn_Write_err env n = None"
  shows "passes (writeUint8 env b)" and "passes (writeUint64 env v)" and "passes (writeBytes env d)"
  using assms
  by (simp_all add: writeUint8_def writeUint64_def writeBytes_def passes_writeExact passes_andThen)

lemma passes_send_inbox:
  "\<forall>n. conn_Write_err env n = None \<Longrightarrow> passes (send_inbox env batches)"
  by (induction batches) (simp_all add: passes_skip passes_andThen passes_writeExact passes_writes)

lemma passes_send_preimages:
  "\<forall>n. conn_Write_err env n = None \<Longrightarrow> passes (send_preimages env ps)"
  by (induction ps) (auto simp: passes_skip passes_andThen passes_writeExact passes_writes)

lemma passes_send_preimage_types:
  "\<forall>n. conn_Write_err env n = None \<Longrightarrow> passes (send_preimage_types env ts)"
  by (induction ts)
    (auto simp: passes_skip passes_andThen passes_writes passes_send_preimages)

lemma passes_send_request:
  assumes "\<forall>n. conn_Write_err env n = None"
  shows "passes (send_request env entry)"
  unfolding send_request_def
  by (intro passes_andThen passes_writes passes_writeExact passes_send_inbox
      passes_send_preimage_types assms)
    (simp add: passes_skip passes_andThen passes_writes passes_writeExact assms)

lemma prove_reads:
  assumes "map_of ignoreProveBlocks (Id' entry) = None" and "env_ok env"
  shows "\<exists>c1. unread c1 = conn_input env
     \<and> fst (prove env entry) = fst (read_response env zeroGlobalState c1)"
proof -
  from assms(2) have w: "\<forall>n. conn_Write_err env n = None" by (simp add: env_ok_def)
  let ?c0 = "\<lparr>events = [EvListenTCP, EvSetDeadline, EvStdinWrite (Addr_String env @ [0x0A]),
      EvAccept, EvSetReadDeadline, EvSetWriteDeadline], nwrites = 0, unread = conn_input env\<rparr>"
  from passes_send_request [OF w, of entry] obtain c1
    where c1: "send_request env entry ?c0 = (None, c1)" "unread c1 = unread ?c0"
    unfolding passes_def by blast
  from assms c1 have "fst (prove env entry) = fst (read_response env zeroGlobalState c1)"
    by (simp add: prove_def env_ok_def Let_def split: prod.splits)
  with c1 show ?thesis by auto
qed

lemma read_prefix:
  assumes "unread c = xs @ rest" and "length xs = n" and "n < 2 ^ 63" and "n \<le> maxAlloc env"
  shows "\<exists>c'. read env n c = (Value xs, c') \<and> unread c' = rest"
  using assms by (cases "n = 0") (auto simp: read_def)

lemma read_too_long:
  "2 ^ 63 \<le> n \<or> maxAlloc env < n \<Longrightarrow> read env n c = (Panics MakesliceLenOutOfRange, c)"
  by (simp add: read_def)

lemma readUint64_prefix:
  assumes "unread c = xs @ rest" and "length xs = 8" and "32 \<le> maxAlloc env"
  shows "\<exists>c'. readUint64 env c = (Value (BigEndian_Uint64 xs), c') \<and> unread c' = rest"
proof -
  from assms(3) have "(8::nat) < 2 ^ 63" and "8 \<le> maxAlloc env" by simp_all
  from read_prefix [OF assms(1,2) this] show ?thesis by (auto simp: readUint64_def)
qed

lemma readHash_prefix:
  assumes "unread c = xs @ rest" and "length xs = 32" and "32 \<le> maxAlloc env"
  shows "\<exists>c'. readHash env c = (Value (BytesToHash xs), c') \<and> unread c' = rest"
proof -
  from assms(3) have "(32::nat) < 2 ^ 63" and "32 \<le> maxAlloc env" by simp_all
  from read_prefix [OF assms(1,2) this] show ?thesis by (auto simp: readHash_def)
qed

lemma read_kind:
  assumes "unread c = k # rest" and "32 \<le> maxAlloc env"
  shows "\<exists>c'. read env (Suc 0) c = (Value [k], c') \<and> unread c' = rest"
proof -
  from assms(2) have "Suc 0 < 2 ^ 63" and "Suc 0 \<le> maxAlloc env" by simp_all
  from read_prefix [of c "[k]" rest "Suc 0", OF _ _ this] assms(1) show ?thesis by simp
qed

lemma response_success:
  assumes "unread c = successByte # bb @ pb @ hb @ sb @ rest"
    and "length bb = 8" and "length pb = 8" and "length hb = 32" and "length sb = 32"
    and "32 \<le> maxAlloc env"
  shows "fst (read_response env state c) =
     Returns (state\<lparr>Batch := BigEndian_Uint64 bb, PosInBatch := BigEndian_Uint64 pb,
                    BlockHash := BytesToHash hb, SendRoot := BytesToHash sb\<rparr>) None"
proof -
  from read_kind [OF assms(1,6)] obtain c1
    where c1: "read env (Suc 0) c = (Value [successByte], c1)"
      "unread c1 = bb @ pb @ hb @ sb @ rest"
    by blast
  from readUint64_prefix [OF c1(2) assms(2,6)] obtain c2
    where c2: "readUint64 env c1 = (Value (BigEndian_Uint64 bb), c2)"
      "unread c2 = pb @ hb @ sb @ rest"
    by blast
  from readUint64_prefix [OF c2(2) assms(3,6)] obtain c3
    where c3: "readUint64 env c2 = (Value (BigEndian_Uint64 pb), c3)" "unread c3 = hb @ sb @ rest"
    by blast
  from readHash_prefix [OF c3(2) assms(4,6)] obtain c4
    where c4: "readHash env c3 = (Value (BytesToHash hb), c4)" "unread c4 = sb @ rest"
    by blast
  from readHash_prefix [OF c4(2) assms(5,6)] obtain c5
    where c5: "readHash env c4 = (Value (BytesToHash sb), c5)" "unread c5 = rest"
    by blast
  show ?thesis
    by (simp add: read_response_def c1 c2 c3 c4 c5 successByte_def failureByte_def)
qed

lemma response_failure:
  assumes "unread c = failureByte # lb @ message @ rest"
    and "length lb = 8" and "length message = unat (BigEndian_Uint64 lb)"
    and "32 \<le> maxAlloc env"
    and "unat (BigEndian_Uint64 lb) < 2 ^ 63" and "unat (BigEndian_Uint64 lb) \<le> maxAlloc env"
  shows "fst (read_response env state c) = Returns state (Some (errors_New message))"
proof -
  from read_kind [OF assms(1,4)] obtain c1
    where c1: "read env (Suc 0) c = (Value [failureByte], c1)" "unread c1 = lb @ message @ rest"
    by blast
  from readUint64_prefix [OF c1(2) assms(2,4)] obtain c2
    where c2: "readUint64 env c1 = (Value (BigEndian_Uint64 lb), c2)" "unread c2 = message @ rest"
    by blast
  from read_prefix [OF c2(2) assms(3,5,6)] obtain c3
    where c3: "read env (unat (BigEndian_Uint64 lb)) c2 = (Value message, c3)"
    by blast
  show ?thesis
    by (simp add: read_response_def c1 c2 c3)
qed

lemma response_failure_panics:
  assumes "unread c = failureByte # lb @ rest"
    and "length lb = 8" and "32 \<le> maxAlloc env"
    and "2 ^ 63 \<le> unat (BigEndian_Uint64 lb) \<or> maxAlloc env < unat (BigEndian_Uint64 lb)"
  shows "fst (read_response env state c) = Panicked MakesliceLenOutOfRange"
proof -
  from read_kind [OF assms(1,3)] obtain c1
    where c1: "read env (Suc 0) c = (Value [failureByte], c1)" "unread c1 = lb @ rest"
    by blast
  from readUint64_prefix [OF c1(2) assms(2,3)] obtain c2
    where c2: "readUint64 env c1 = (Value (BigEndian_Uint64 lb), c2)"
    by blast
  from assms(4) have c3: "read env (unat (BigEndian_Uint64 lb)) c2 =
      (Panics MakesliceLenOutOfRange, c2)"
    by (rule read_too_long)
  show ?thesis
    by (simp add: read_response_def c1 c2 c3)
qed

lemma response_other:
  assumes "unread c = k # rest" and "k \<noteq> successByte" and "k \<noteq> failureByte"
    and "32 \<le> maxAlloc env"
  shows "fst (read_response env state c) =
     Returns state (Some (errors_New (string_bytes ''inter-process communication failure'')))"
proof -
  from read_kind [OF assms(1,4)] obtain c1 where c1: "read env (Suc 0) c = (Value [k], c1)"
    by blast
  from assms(2,3) show ?thesis
    by (simp add: read_response_def c1)
qed

lemma be_val_bound: "be_val bs < 256 ^ length bs"
proof (induction bs rule: rev_induct)
  case Nil
  show ?case by simp
next
  case (snoc b bs)
  have "unat b < 256" using unsigned_less [of b] by simp
  with snoc have "be_val bs * 256 + unat b < (be_val bs + 1) * 256" by simp
  also from snoc have "\<dots> \<le> 256 ^ length bs * 256" by (simp add: Suc_leI del: be_val.simps)
  finally show ?case by simp
qed

lemma unat_BigEndian_Uint64: "length bs = 8 \<Longrightarrow> unat (BigEndian_Uint64 bs) = be_val bs"
proof -
  assume "length bs = 8"
  with be_val_bound [of bs] have "be_val bs < 2 ^ 64" by (simp del: be_val.simps)
  then show ?thesis
    by (simp add: BigEndian_Uint64_def unat_of_nat del: be_val.simps)
qed

lemma sent_bytes_append: "sent_bytes (xs @ ys) = sent_bytes xs @ sent_bytes ys"
  by (induction xs rule: sent_bytes.induct) simp_all

lemma sent_read: "sent_bytes (events (snd (read env n c))) = sent_bytes (events c)"
  by (simp add: read_def sent_bytes_append)

lemma sent_readUint64: "sent_bytes (events (snd (readUint64 env c))) = sent_bytes (events c)"
  using sent_read [of env 8 c] by (auto simp: readUint64_def split: prod.splits result.splits)

lemma sent_readHash: "sent_bytes (events (snd (readHash env c))) = sent_bytes (events c)"
  using sent_read [of env 32 c] by (auto simp: readHash_def split: prod.splits result.splits)

lemma sent_read_response:
  "sent_bytes (events (snd (read_response env state c))) = sent_bytes (events c)"
proof -
  have r: "read env n c0 = (x, c1) \<Longrightarrow> sent_bytes (events c1) = sent_bytes (events c0)"
    for n c0 x c1
    using sent_read [of env n c0] by simp
  have u: "readUint64 env c0 = (x, c1) \<Longrightarrow> sent_bytes (events c1) = sent_bytes (events c0)"
    for c0 x c1
    using sent_readUint64 [of env c0] by simp
  have h: "readHash env c0 = (x, c1) \<Longrightarrow> sent_bytes (events c1) = sent_bytes (events c0)"
    for c0 x c1
    using sent_readHash [of env c0] by simp
  show ?thesis
    unfolding read_response_def
    by (auto split: prod.splits result.splits list.splits dest!: r u h)
qed

lemma be_bytes_zero: "be_bytes n 0 = replicate n 0"
  by (induction n) (simp_all add: replicate_append_same)

lemma UintToBytes_zero: "UintToBytes 0 = [0, 0, 0, 0, 0, 0, 0, 0]"
proof -
  have "(8::nat) = Suc (Suc (Suc (Suc (Suc (Suc (Suc (Suc 0)))))))" by simp
  then have "replicate 8 (0::byte) = [0, 0, 0, 0, 0, 0, 0, 0]"
    by (simp only: replicate.simps)
  then show ?thesis by (simp add: UintToBytes_def be_bytes_zero)
qed

lemma sent_empty_request:
  assumes "map_of ignoreProveBlocks (Id' entry) = None" and "env_ok env"
    and "BatchInfos entry = []" and "\<not> HasDelayedMsg entry" and "Preimages entry = []"
  shows "sent_bytes (snd (prove env entry)) =
      (UintToBytes (Batch (StartState entry)) @ UintToBytes (PosInBatch (StartState entry))
        @ Hash_Bytes (BlockHash (StartState entry)) @ Hash_Bytes (SendRoot (StartState entry)))
      @ [0x00, 0x00, 0x00, 0x00, 0x00, 0x00, 0x00, 0x00, 0x00, 0x00, 0x04]"
proof -
  from assms(2) have w: "conn_Write_err env n = None" for n by (simp add: env_ok_def)
  let ?c0 = "\<lparr>events = [EvListenTCP, EvSetDeadline, EvStdinWrite (Addr_String env @ [0x0A]),
      EvAccept, EvSetReadDeadline, EvSetWriteDeadline], nwrites = 0, unread = conn_input env\<rparr>"
  obtain c1 where c1: "send_request env entry ?c0 = (None, c1)"
    and s: "sent_bytes (events c1) =
      (UintToBytes (Batch (StartState entry)) @ UintToBytes (PosInBatch (StartState entry))
        @ Hash_Bytes (BlockHash (StartState entry)) @ Hash_Bytes (SendRoot (StartState entry)))
      @ [0x00, 0x00, 0x00, 0x00, 0x00, 0x00, 0x00, 0x00, 0x00, 0x00, 0x04]"
    using assms(3,4,5)
    by (simp add: send_request_def andThen_def writeExact_def writeUint64_def w
        UintToBytes_zero successByte_def readyByte_def)
  from assms(1,2) c1
  have "snd (prove env entry) = events (snd (read_response env zeroGlobalState c1))"
    by (simp add: prove_def env_ok_def Let_def split: prod.splits)
  with s show ?thesis by (simp only: sent_read_response)
qed

lemma start_block_length:
  "length (UintToBytes b @ UintToBytes p @ Hash_Bytes bh @ Hash_Bytes sr) = 80"
  by (simp add: UintToBytes_def Hash_Bytes_def length_be_bytes)

lemma scenario_env_ok: "env_ok (scenario_env response)"
  by (simp add: env_ok_def scenario_env_def)

lemma scenario_maxAlloc: "32 \<le> maxAlloc (scenario_env response)"
  by (simp add: scenario_env_def)

lemma scenario_not_ignored: "map_of ignoreProveBlocks (Id' (scenario_input 1)) = None"
  by (simp add: scenario_input_def ignoreProveBlocks_def)

lemma scenario_input_fields:
  "BatchInfos (scenario_input n) = []" "\<not> HasDelayedMsg (scenario_input n)"
  "Preimages (scenario_input n) = []"
  "StartState (scenario_input n) = \<lparr>Batch = 7, PosInBatch = 3,
        BlockHash = 0xaaaaaaaaaaaaaaaaaaaaaaaaaaaaaaaaaaaaaaaaaaaaaaaaaaaaaaaaaaaaaaaa,
        SendRoot = 0xbbbbbbbbbbbbbbbbbbbbbbbbbbbbbbbbbbbbbbbbbbbbbbbbbbbbbbbbbbbbbbbb\<rparr>"
  by (simp_all add: scenario_input_def)

lemma BytesToHash_Hash_Bytes: "BytesToHash (Hash_Bytes h) = h"
  by (simp only: BytesToHash_def be_val_Hash_Bytes) simp

section \<open>The ignore list short-circuits prove\<close>

text \<open>
  Claim C5. For every validation input whose id is a key of \<open>ignoreProveBlocks\<close>, in every
  environment, \<open>prove\<close> returns the state the list maps the id to, with no error, and
  makes no call at all: no write to the child's stdin, no listen, accept, read or write.
\<close>

theorem prove_ignored:
  "map_of ignoreProveBlocks (Id' entry) = Some s \<longrightarrow> prove env entry = (Returns s None, [])"
  by (simp add: prove_def)

theorem prove_ignored_witness:
  "prove (scenario_env []) (scenario_input 4083577) =
     (Returns \<lparr>Batch = 9178, PosInBatch = 480,
         BlockHash = 0xda2d176f5b585b131e1272efbfe458d4682938263fdeda42982083fb14186a84,
         SendRoot = 0x73e3fd5339538bb97fb2ab3f1affc7971c8ea591c1f324e22cbc5b4d01b7b4ee\<rparr> None, [])"
  using prove_ignored [of "scenario_input 4083577" _ "scenario_env []"] ignore_first
  by (simp add: scenario_input_def)

section \<open>The request for an input with nothing to send\<close>

text \<open>
  Claim C2, as amended. For an input that is not on the ignore list, with empty
  \<^verbatim>\<open>BatchInfo\<close>, no delayed message and empty \<^verbatim>\<open>Preimages\<close>, and any start state, in an
  environment where every call succeeds: the bytes written to the connection are the
  80 bytes of the start state followed by exactly the eleven bytes
  \<open>00 00 00 00 00 00 00 00 00 00 04\<close> (the end-of-batches sentinel, the end-of-delayed
  sentinel, the 8-byte zero count of preimage kinds, the ready byte).
\<close>

theorem prove_empty_request:
  assumes "map_of ignoreProveBlocks (Id' entry) = None" and "env_ok env"
    and "BatchInfos entry = []" and "\<not> HasDelayedMsg entry" and "Preimages entry = []"
  shows "sent_bytes (snd (prove env entry)) =
      (UintToBytes (Batch (StartState entry)) @ UintToBytes (PosInBatch (StartState entry))
        @ Hash_Bytes (BlockHash (StartState entry)) @ Hash_Bytes (SendRoot (StartState entry)))
      @ [0x00, 0x00, 0x00, 0x00, 0x00, 0x00, 0x00, 0x00, 0x00, 0x00, 0x04]
    \<and> length (UintToBytes (Batch (StartState entry)) @ UintToBytes (PosInBatch (StartState entry))
        @ Hash_Bytes (BlockHash (StartState entry)) @ Hash_Bytes (SendRoot (StartState entry))) = 80"
  using sent_empty_request [OF assms] start_block_length by blast

theorem prove_empty_request_witness:
  "sent_bytes (snd (prove (scenario_env [0x02]) (scenario_input 1))) =
      (UintToBytes 7 @ UintToBytes 3
        @ Hash_Bytes 0xaaaaaaaaaaaaaaaaaaaaaaaaaaaaaaaaaaaaaaaaaaaaaaaaaaaaaaaaaaaaaaaa
        @ Hash_Bytes 0xbbbbbbbbbbbbbbbbbbbbbbbbbbbbbbbbbbbbbbbbbbbbbbbbbbbbbbbbbbbbbbbb)
      @ [0x00, 0x00, 0x00, 0x00, 0x00, 0x00, 0x00, 0x00, 0x00, 0x00, 0x04]
    \<and> length (UintToBytes 7 @ UintToBytes 3
        @ Hash_Bytes 0xaaaaaaaaaaaaaaaaaaaaaaaaaaaaaaaaaaaaaaaaaaaaaaaaaaaaaaaaaaaaaaaa
        @ Hash_Bytes 0xbbbbbbbbbbbbbbbbbbbbbbbbbbbbbbbbbbbbbbbbbbbbbbbbbbbbbbbbbbbbbbbb) = 80"
  using prove_empty_request [OF scenario_not_ignored scenario_env_ok scenario_input_fields(1,2,3),
      of "[0x02]"]
  by (simp only: scenario_input_fields GoGlobalState.simps)

text \<open>
  Claim C2 as stated fails: it lists ten bytes (nine \<open>00\<close> and \<open>04\<close>) for the two
  sentinels, the 8-byte count and the ready byte. In the spec's scenario the bytes after
  the 80 bytes of the start state are eleven.
\<close>

theorem prove_empty_request_counterexample:
  "drop 80 (sent_bytes (snd (prove (scenario_env [0x02]) (scenario_input 1)))) =
      [0x00, 0x00, 0x00, 0x00, 0x00, 0x00, 0x00, 0x00, 0x00, 0x00, 0x04]
   \<and> drop 80 (sent_bytes (snd (prove (scenario_env [0x02]) (scenario_input 1)))) \<noteq>
      [0x00, 0x00, 0x00, 0x00, 0x00, 0x00, 0x00, 0x00, 0x00, 0x04]"
proof -
  have "drop 80 (sent_bytes (snd (prove (scenario_env [0x02]) (scenario_input 1)))) =
      [0x00, 0x00, 0x00, 0x00, 0x00, 0x00, 0x00, 0x00, 0x00, 0x00, 0x04]"
    using sent_empty_request [OF scenario_not_ignored scenario_env_ok scenario_input_fields(1,2,3),
        of "[0x02]"]
      start_block_length [of "Batch (StartState (scenario_input 1))"
        "PosInBatch (StartState (scenario_input 1))" "BlockHash (StartState (scenario_input 1))"
        "SendRoot (StartState (scenario_input 1))"]
    by simp
  then show ?thesis by simp
qed

section \<open>The response of the child\<close>

lemma prove_failure_panics:
  assumes "map_of ignoreProveBlocks (Id' entry) = None" and "env_ok env"
    and "32 \<le> maxAlloc env"
    and "conn_input env = 0x01 # lb @ rest" and "length lb = 8"
    and "2 ^ 63 \<le> be_val lb \<or> maxAlloc env < be_val lb"
  shows "fst (prove env entry) = Panicked MakesliceLenOutOfRange"
proof -
  from prove_reads [OF assms(1,2)] obtain c1
    where c1: "unread c1 = conn_input env"
      and p: "fst (prove env entry) = fst (read_response env zeroGlobalState c1)"
    by blast
  from assms(4) c1 have u: "unread c1 = failureByte # lb @ rest"
    by (simp add: failureByte_def)
  from assms(5,6)
  have m: "2 ^ 63 \<le> unat (BigEndian_Uint64 lb) \<or> maxAlloc env < unat (BigEndian_Uint64 lb)"
    by (simp add: unat_BigEndian_Uint64 del: be_val.simps)
  from response_failure_panics [OF u assms(5,3) m, of zeroGlobalState] p show ?thesis by simp
qed

text \<open>
  Claim C4, as amended. For an input that is not on the ignore list, in an environment where
  every call up to and including the writes of the request succeeds and the reads of 1, 8
  and 32 bytes can allocate their slices, \<open>prove\<close> decides on the first byte the child
  sends. After \<open>0x00\<close>, 8 bytes, 8 bytes, 32 bytes and 32 bytes: it returns the state whose
  batch and position are the big-endian values of the two 8-byte groups and whose block
  hash and send root are the two 32-byte groups, with no error. After \<open>0x01\<close>, 8 bytes whose
  big-endian value is a length that \<^verbatim>\<open>make\<close> can allocate (below \<open>2^63\<close> and at most
  \<open>maxAlloc\<close>), and that many message bytes: it returns an error whose text is exactly the
  message bytes. After \<open>0x01\<close> and 8 bytes announcing a longer length: it panics in
  \<^verbatim>\<open>make\<close> and returns nothing. After any other byte: it returns the error with the text
  "inter-process communication failure".
\<close>

theorem prove_response_cases:
  assumes "map_of ignoreProveBlocks (Id' entry) = None" and "env_ok env"
    and "32 \<le> maxAlloc env"
  shows
    "(conn_input env = 0x00 # bb @ pb @ hb @ sb @ rest \<and> length bb = 8 \<and> length pb = 8
        \<and> length hb = 32 \<and> length sb = 32 \<longrightarrow>
      fst (prove env entry) =
        Returns \<lparr>Batch = BigEndian_Uint64 bb, PosInBatch = BigEndian_Uint64 pb,
                 BlockHash = BytesToHash hb, SendRoot = BytesToHash sb\<rparr> None
      \<and> unat (BigEndian_Uint64 bb) = be_val bb \<and> unat (BigEndian_Uint64 pb) = be_val pb)
   \<and> (conn_input env = 0x01 # lb @ message @ rest' \<and> length lb = 8
        \<and> length message = be_val lb \<and> be_val lb < 2 ^ 63 \<and> be_val lb \<le> maxAlloc env \<longrightarrow>
      fst (prove env entry) = Returns zeroGlobalState (Some (errors_New message)))
   \<and> (conn_input env = 0x01 # lb' @ rest''' \<and> length lb' = 8
        \<and> (2 ^ 63 \<le> be_val lb' \<or> maxAlloc env < be_val lb') \<longrightarrow>
      fst (prove env entry) = Panicked MakesliceLenOutOfRange)
   \<and> (conn_input env = k # rest'' \<and> k \<noteq> 0x00 \<and> k \<noteq> 0x01 \<longrightarrow>
      fst (prove env entry) =
        Returns zeroGlobalState
          (Some (errors_New (string_bytes ''inter-process communication failure''))))"
proof -
  from prove_reads [OF assms(1,2)] obtain c1
    where c1: "unread c1 = conn_input env"
      and p: "fst (prove env entry) = fst (read_response env zeroGlobalState c1)"
    by blast
  have a: "fst (prove env entry) =
        Returns \<lparr>Batch = BigEndian_Uint64 bb, PosInBatch = BigEndian_Uint64 pb,
                 BlockHash = BytesToHash hb, SendRoot = BytesToHash sb\<rparr> None
      \<and> unat (BigEndian_Uint64 bb) = be_val bb \<and> unat (BigEndian_Uint64 pb) = be_val pb"
    if h: "conn_input env = 0x00 # bb @ pb @ hb @ sb @ rest \<and> length bb = 8 \<and> length pb = 8
        \<and> length hb = 32 \<and> length sb = 32"
  proof -
    from h c1 have u: "unread c1 = successByte # bb @ pb @ hb @ sb @ rest"
      by (simp add: successByte_def)
    from h have l: "length bb = 8" "length pb = 8" "length hb = 32" "length sb = 32"
      by simp_all
    from response_success [OF u l assms(3), of zeroGlobalState] p l show ?thesis
      by (simp add: zeroGlobalState_def unat_BigEndian_Uint64 del: be_val.simps)
  qed
  have b: "fst (prove env entry) = Returns zeroGlobalState (Some (errors_New message))"
    if h: "conn_input env = 0x01 # lb @ message @ rest' \<and> length lb = 8
        \<and> length message = be_val lb \<and> be_val lb < 2 ^ 63 \<and> be_val lb \<le> maxAlloc env"
  proof -
    from h c1 have u: "unread c1 = failureByte # lb @ message @ rest'"
      by (simp add: failureByte_def)
    from h have l: "length lb = 8" by simp
    with h have m: "length message = unat (BigEndian_Uint64 lb)"
      and m1: "unat (BigEndian_Uint64 lb) < 2 ^ 63"
      and m2: "unat (BigEndian_Uint64 lb) \<le> maxAlloc env"
      by (simp_all add: unat_BigEndian_Uint64 del: be_val.simps)
    from response_failure [OF u l m assms(3) m1 m2, of zeroGlobalState] p show ?thesis by simp
  qed
  have c: "fst (prove env entry) = Panicked MakesliceLenOutOfRange"
    if h: "conn_input env = 0x01 # lb' @ rest''' \<and> length lb' = 8
        \<and> (2 ^ 63 \<le> be_val lb' \<or> maxAlloc env < be_val lb')"
  proof -
    from h have i: "conn_input env = 0x01 # lb' @ rest'''" and l: "length lb' = 8"
      and m: "2 ^ 63 \<le> be_val lb' \<or> maxAlloc env < be_val lb'"
      by blast+
    from assms i l m show ?thesis by (rule prove_failure_panics)
  qed
  have d: "fst (prove env entry) =
        Returns zeroGlobalState
          (Some (errors_New (string_bytes ''inter-process communication failure'')))"
    if h: "conn_input env = k # rest'' \<and> k \<noteq> 0x00 \<and> k \<noteq> 0x01"
  proof -
    from h c1 have u: "unread c1 = k # rest''" by simp
    from h have n: "k \<noteq> successByte" "k \<noteq> failureByte"
      by (simp_all add: successByte_def failureByte_def)
    from response_other [OF u n assms(3), of zeroGlobalState] p show ?thesis by simp
  qed
  from a b c d show ?thesis by blast
qed

theorem prove_response_cases_witness:
  "fst (prove (scenario_env (0x00 # [0, 0, 0, 0, 0, 0, 0, 7] @ [0, 0, 0, 0, 0, 0, 0, 4]
          @ Hash_Bytes 0xCC @ Hash_Bytes 0xDD @ []))
        (scenario_input 1)) =
     Returns \<lparr>Batch = 7, PosInBatch = 4, BlockHash = 0xCC, SendRoot = 0xDD\<rparr> None
   \<and> fst (prove (scenario_env (0x01 # [0, 0, 0, 0, 0, 0, 0, 12] @ string_bytes ''bad-preimage''
          @ []))
        (scenario_input 1)) =
     Returns zeroGlobalState (Some (errors_New (string_bytes ''bad-preimage'')))
   \<and> fst (prove (scenario_env (0x01 # [0, 1, 0, 0, 0, 0, 0, 1] @ []))
        (scenario_input 1)) = Panicked MakesliceLenOutOfRange
   \<and> fst (prove (scenario_env (0x02 # [])) (scenario_input 1)) =
     Returns zeroGlobalState
       (Some (errors_New (string_bytes ''inter-process communication failure'')))"
proof -
  have l: "length (Hash_Bytes h) = 32" for h
    by (simp add: Hash_Bytes_def length_be_bytes)
  have a: "fst (prove (scenario_env (0x00 # [0, 0, 0, 0, 0, 0, 0, 7] @ [0, 0, 0, 0, 0, 0, 0, 4]
          @ Hash_Bytes 0xCC @ Hash_Bytes 0xDD @ []))
        (scenario_input 1)) =
     Returns \<lparr>Batch = 7, PosInBatch = 4, BlockHash = 0xCC, SendRoot = 0xDD\<rparr> None"
    using prove_response_cases [OF scenario_not_ignored
        scenario_env_ok [of "0x00 # [0, 0, 0, 0, 0, 0, 0, 7] @ [0, 0, 0, 0, 0, 0, 0, 4]
          @ Hash_Bytes 0xCC @ Hash_Bytes 0xDD @ []"] scenario_maxAlloc,
        where bb = "[0, 0, 0, 0, 0, 0, 0, 7]" and pb = "[0, 0, 0, 0, 0, 0, 0, 4]"
        and hb = "Hash_Bytes 0xCC" and sb = "Hash_Bytes 0xDD" and rest = "[]"]
    by (simp add: scenario_env_def l BytesToHash_Hash_Bytes BigEndian_Uint64_def)
  have b: "fst (prove (scenario_env (0x01 # [0, 0, 0, 0, 0, 0, 0, 12] @ string_bytes ''bad-preimage''
          @ []))
        (scenario_input 1)) =
     Returns zeroGlobalState (Some (errors_New (string_bytes ''bad-preimage'')))"
    using prove_response_cases [OF scenario_not_ignored
        scenario_env_ok [of "0x01 # [0, 0, 0, 0, 0, 0, 0, 12] @ string_bytes ''bad-preimage'' @ []"]
        scenario_maxAlloc,
        where lb = "[0, 0, 0, 0, 0, 0, 0, 12]" and message = "string_bytes ''bad-preimage''"
        and rest' = "[]"]
    by (simp add: scenario_env_def string_bytes_def)
  have c: "fst (prove (scenario_env (0x01 # [0, 1, 0, 0, 0, 0, 0, 1] @ []))
        (scenario_input 1)) = Panicked MakesliceLenOutOfRange"
    using prove_response_cases [OF scenario_not_ignored
        scenario_env_ok [of "0x01 # [0, 1, 0, 0, 0, 0, 0, 1] @ []"] scenario_maxAlloc,
        where lb' = "[0, 1, 0, 0, 0, 0, 0, 1]" and rest''' = "[]"]
    by (simp add: scenario_env_def)
  have d: "fst (prove (scenario_env (0x02 # [])) (scenario_input 1)) =
     Returns zeroGlobalState
       (Some (errors_New (string_bytes ''inter-process communication failure'')))"
    using prove_response_cases [OF scenario_not_ignored scenario_env_ok [of "0x02 # []"]
        scenario_maxAlloc, where k = "0x02" and rest'' = "[]"]
    by (simp add: scenario_env_def)
  from a b c d show ?thesis by (simp only: simp_thms)
qed

text \<open>
  Claim C4 as stated fails where the announced length is more than \<^verbatim>\<open>make\<close> allocates.
  The child sends \<open>0x01\<close>, the length \<open>2^63\<close> as 8 big-endian bytes, and that many message
  bytes: \<open>prove\<close> panics before it reads the first of them, and returns no error.
\<close>

theorem prove_response_counterexample:
  "be_val [0x80, 0, 0, 0, 0, 0, 0, 0] = 2 ^ 63
   \<and> length (replicate (2 ^ 63) (0x41 :: byte)) = 2 ^ 63
   \<and> fst (prove
        (scenario_env (0x01 # [0x80, 0, 0, 0, 0, 0, 0, 0] @ replicate (2 ^ 63) (0x41 :: byte)))
        (scenario_input 1)) = Panicked MakesliceLenOutOfRange"
proof (intro conjI)
  show v: "be_val [0x80, 0, 0, 0, 0, 0, 0, 0] = 2 ^ 63" by simp
  show "length (replicate (2 ^ 63) (0x41 :: byte)) = 2 ^ 63" by (rule length_replicate)
  have i: "conn_input (scenario_env (0x01 # [0x80, 0, 0, 0, 0, 0, 0, 0] @ r)) =
      0x01 # [0x80, 0, 0, 0, 0, 0, 0, 0] @ r" for r
    by (simp add: scenario_env_def)
  have l: "length [0x80, 0, 0, 0, 0, 0, 0, 0 :: byte] = 8" by simp
  from v have m: "2 ^ 63 \<le> be_val [0x80, 0, 0, 0, 0, 0, 0, 0]
      \<or> maxAlloc (scenario_env (0x01 # [0x80, 0, 0, 0, 0, 0, 0, 0] @ r))
          < be_val [0x80, 0, 0, 0, 0, 0, 0, 0]" for r
    by (simp only: order_refl simp_thms)
  show "fst (prove
        (scenario_env (0x01 # [0x80, 0, 0, 0, 0, 0, 0, 0] @ replicate (2 ^ 63) (0x41 :: byte)))
        (scenario_input 1)) = Panicked MakesliceLenOutOfRange"
    by (rule prove_failure_panics [OF scenario_not_ignored scenario_env_ok scenario_maxAlloc i l m])
qed

section \<open>The derived id of a redeem attempt\<close>

text \<open>
  Claim C9. For every 32-byte ticket id and every 64-bit try sequence number,
  \<open>TxIdForRedeemAttempt\<close> is the Keccak-256 hash of the 32 bytes of the ticket id, followed
  by one zero byte, followed by 8 bytes whose little-endian value is the sequence number.
  With the all-zero ticket id and sequence number 1 the hashed string is 32 zero bytes,
  a zero byte and \<open>01 00 00 00 00 00 00 00\<close>.
\<close>

theorem TxIdForRedeemAttempt_keccak:
  "TxIdForRedeemAttempt keccak256 ticketId trySequenceNum =
     keccak256 (Hash_Bytes ticketId @ [0] @ LittleEndian_PutUint64 trySequenceNum)
   \<and> length (Hash_Bytes ticketId) = 32
   \<and> be_val (Hash_Bytes ticketId) = unat ticketId
   \<and> length (LittleEndian_PutUint64 trySequenceNum) = 8
   \<and> le_val (LittleEndian_PutUint64 trySequenceNum) = unat trySequenceNum
   \<and> TxIdForRedeemAttempt keccak256 0 1 =
       keccak256 (replicate 32 0 @ [0] @ [1, 0, 0, 0, 0, 0, 0, 0])"
proof -
  have a: "TxIdForRedeemAttempt keccak256 t n =
      keccak256 (Hash_Bytes t @ [0] @ LittleEndian_PutUint64 n)" for t n
    by (simp add: TxIdForRedeemAttempt_def Keccak256Hash_def)
  have b: "length (Hash_Bytes ticketId) = 32"
    by (simp add: Hash_Bytes_def length_be_bytes)
  have c: "length (LittleEndian_PutUint64 trySequenceNum) = 8"
    by (simp add: LittleEndian_PutUint64_def)
  have d: "LittleEndian_PutUint64 1 = [1, 0, 0, 0, 0, 0, 0, 0]"
    by (simp add: LittleEndian_PutUint64_def)
  show ?thesis
    using a [of ticketId trySequenceNum] a [of 0 1] b c
    by (simp only: be_val_Hash_Bytes le_val_PutUint64 Hash_Bytes_zero d simp_thms)
qed

end
